theory Spec2Isabelle
  imports Main
begin

section \<open>Data model of export.py\<close>

text \<open>
  The values that occur in the \<open>args\<close> dictionary of export.py: \<open>None\<close>, strings
  (\<open>type=str\<close> options, lines returned by \<open>input\<close> and \<open>getpass\<close>, environment values)
  and booleans (\<open>type=bool\<close>, and the assignments of lines 67 and 69).  Python's \<open>==\<close>
  between these values is structural equality: \<open>True == "Y"\<close> is false.
\<close>

datatype pyval = PNone | PStr string | PBool bool

text \<open>
  A Python dict keeps its keys in insertion order; \<open>print(args)\<close> shows them in that
  order.  The dictionary is an association list with distinct keys.
\<close>

type_synonym pydict = "(string \<times> pyval) list"

definition dict_get :: "pydict \<Rightarrow> string \<Rightarrow> pyval option" where
  "dict_get d k = map_of d k"

text \<open>\<open>d[k] = v\<close>: an existing key keeps its position, a new key goes to the end.\<close>

fun dict_set :: "pydict \<Rightarrow> string \<Rightarrow> pyval \<Rightarrow> pydict" where
  "dict_set [] k v = [(k, v)]"
| "dict_set ((k', v') # d) k v =
     (if k' = k then (k, v) # d else (k', v') # dict_set d k v)"

datatype backend = Pinecone | Weaviate | Qdrant

text \<open>
  What the process does that can be observed from outside, in the order it happens:
  prompts written by \<open>input\<close> and \<open>getpass\<close>, lines written by \<open>print\<close>, the help or
  usage text argparse writes before it exits, and the calls made on the adapter objects
  (\<open>ExportPinecone\<close>, \<open>ExportWeaviate\<close>, \<open>ExportQdrant\<close>).
\<close>

datatype event =
    Prompt string
  | GetpassPrompt string
  | PrintStr string
  | PrintArgs pydict
  | ArgparseHelp
  | ArgparseUsageError
  | Construct backend pydict
  | ListNames backend
  | GetData backend "pyval list"

datatype error =
    EOFError
  | KeyError string
  | SystemExit nat
  | BackendError
  | NotModelled

text \<open>
  The adapter classes are imported from the package \<open>export\<close>; export.py only calls
  them.  Their behaviour is a parameter of the model: whether the constructor raises,
  which names the enumeration returns (\<open>None\<close>: it raises), and for which collection
  names \<open>get_data\<close> raises.
\<close>

record adapter =
  construct_raises :: bool
  collection_names :: "string list option"
  get_data_raises :: "pyval list"

text \<open>
  The world the program runs in: \<open>sys.argv[1:]\<close>, \<open>os.environ\<close> as it is after
  \<open>load_dotenv()\<close>, the lines still to be read by \<open>input\<close> (standard input) and by
  \<open>getpass\<close> (the terminal), the remote service, and the events so far.
\<close>

record world =
  argv :: "string list"
  environ :: "(string \<times> string) list"
  stdin :: "string list"
  tty :: "string list"
  service :: adapter
  trace :: "event list"

type_synonym 'a io = "world \<Rightarrow> (error + 'a) \<times> world"

definition emit :: "event \<Rightarrow> world \<Rightarrow> world" where
  "emit e w = w\<lparr>trace := trace w @ [e]\<rparr>"

text \<open>The events of a run from \<open>w\<close> to \<open>w'\<close>.\<close>

definition emitted :: "world \<Rightarrow> world \<Rightarrow> event list" where
  "emitted w w' = drop (length (trace w)) (trace w')"

text \<open>Sequencing: an exception of the first action skips the second.\<close>

definition io_bind :: "'a io \<Rightarrow> ('a \<Rightarrow> 'b io) \<Rightarrow> 'b io" where
  "io_bind m f w = (case m w of (Inl e, w') \<Rightarrow> (Inl e, w') | (Inr x, w') \<Rightarrow> f x w')"

section \<open>Builtins used by export.py\<close>

text \<open>
  \<open>input(prompt)\<close> writes the prompt and reads one line; at end of input it raises
  \<open>EOFError\<close>.  \<open>getpass(prompt)\<close> does the same on the terminal, without echo.
\<close>

definition input :: "string \<Rightarrow> string io" where
  "input prompt w =
     (case stdin w of
        [] \<Rightarrow> (Inl EOFError, emit (Prompt prompt) w)
      | l # ls \<Rightarrow> (Inr l, (emit (Prompt prompt) w)\<lparr>stdin := ls\<rparr>))"

definition getpass :: "string \<Rightarrow> string io" where
  "getpass prompt w =
     (case tty w of
        [] \<Rightarrow> (Inl EOFError, emit (GetpassPrompt prompt) w)
      | l # ls \<Rightarrow> (Inr l, (emit (GetpassPrompt prompt) w)\<lparr>tty := ls\<rparr>))"

definition getenv :: "string \<Rightarrow> world \<Rightarrow> string option" where
  "getenv name w = map_of (environ w) name"

section \<open>set_arg_from_input, set_arg_from_password (lines 13-29)\<close>

text \<open>
  Both functions mutate the dictionary they are given; the model returns the
  dictionary after the call.
\<close>

definition set_arg_from_input :: "pydict \<Rightarrow> string \<Rightarrow> string \<Rightarrow> pydict io" where
  "set_arg_from_input args arg_name prompt w =
     (if dict_get args arg_name = None \<or> dict_get args arg_name = Some PNone then
        (case input prompt w of
           (Inl e, w') \<Rightarrow> (Inl e, w')
         | (Inr l, w') \<Rightarrow> (Inr (dict_set args arg_name (PStr l)), w'))
      else (Inr args, w))"

definition set_arg_from_password ::
    "pydict \<Rightarrow> string \<Rightarrow> string \<Rightarrow> string \<Rightarrow> pydict io" where
  "set_arg_from_password args arg_name prompt env_var_name w =
     (case getenv env_var_name w of
        Some v \<Rightarrow> (Inr (dict_set args arg_name (PStr v)), w)
      | None \<Rightarrow>
          (if dict_get args arg_name = None \<or> dict_get args arg_name = Some PNone then
             (case getpass prompt w of
                (Inl e, w') \<Rightarrow> (Inl e, w')
              | (Inr l, w') \<Rightarrow> (Inr (dict_set args arg_name (PStr l)), w'))
           else (Inr args, w)))"

section \<open>Calls on the adapter objects\<close>

text \<open>
  Each call is recorded with its arguments, then returns or raises as the service says.
  \<open>get_data\<close> is recorded with all its positional arguments: the collection name, and
  for Weaviate the cross-reference flag.
\<close>

definition io_return :: "'a \<Rightarrow> 'a io" where
  "io_return x w = (Inr x, w)"

definition construct :: "backend \<Rightarrow> pydict \<Rightarrow> unit io" where
  "construct b args w =
     (if construct_raises (service w) then (Inl BackendError, emit (Construct b args) w)
      else (Inr (), emit (Construct b args) w))"

definition get_all_names :: "backend \<Rightarrow> string list io" where
  "get_all_names b w =
     (case collection_names (service w) of
        None \<Rightarrow> (Inl BackendError, emit (ListNames b) w)
      | Some names \<Rightarrow> (Inr names, emit (ListNames b) w))"

definition get_all_index_names :: "string list io" where
  "get_all_index_names = get_all_names Pinecone"

definition get_all_class_names :: "string list io" where
  "get_all_class_names = get_all_names Weaviate"

definition get_all_collection_names :: "string list io" where
  "get_all_collection_names = get_all_names Qdrant"

definition get_data :: "backend \<Rightarrow> pyval \<Rightarrow> pyval list \<Rightarrow> unit io" where
  "get_data b name extra w =
     (if name \<in> set (get_data_raises (service w))
      then (Inl BackendError, emit (GetData b (name # extra)) w)
      else (Inr (), emit (GetData b (name # extra)) w))"

text \<open>\<open>for x in xs: body(x)\<close>; an exception in the body ends the loop.\<close>

fun for_each :: "'a list \<Rightarrow> ('a \<Rightarrow> unit io) \<Rightarrow> unit io" where
  "for_each [] body w = (Inr (), w)"
| "for_each (x # xs) body w =
     (case body x w of
        (Inl e, w') \<Rightarrow> (Inl e, w')
      | (Inr _, w') \<Rightarrow> for_each xs body w')"

text \<open>\<open>d[k]\<close> as an expression raises \<open>KeyError\<close> on a missing key.\<close>

definition dict_index :: "pydict \<Rightarrow> string \<Rightarrow> pyval io" where
  "dict_index d k w =
     (case dict_get d k of None \<Rightarrow> (Inl (KeyError k), w) | Some v \<Rightarrow> (Inr v, w))"

definition print_args :: "pydict \<Rightarrow> unit io" where
  "print_args d w = (Inr (), emit (PrintArgs d) w)"

section \<open>export_pinecone, export_weaviate, export_qdrant (lines 31-96)\<close>

text \<open>
  The three functions return \<open>None\<close> and leave their results in the dictionary they
  were given; the model returns that dictionary.
\<close>

definition index_prompt :: string where
  "index_prompt = ''Enter the name of index to export, or type all to get all indexes: ''"

definition export_pinecone :: "pydict \<Rightarrow> pydict io" where
  "export_pinecone args0 =
     io_bind (set_arg_from_input args0 ''environment''
                ''Enter the environment of Pinecone instance: '') (\<lambda>args1.
     io_bind (set_arg_from_input args1 ''index'' index_prompt) (\<lambda>args2.
     io_bind (set_arg_from_input args2 ''model_name'' ''Enter the name of model used:'') (\<lambda>args3.
     io_bind (set_arg_from_password args3 ''pinecone_api_key''
                ''Enter your Pinecone API key: '' ''PINECONE_API_KEY'') (\<lambda>args.
     io_bind (print_args args) (\<lambda>_.
     io_bind (construct Pinecone args) (\<lambda>_.
     io_bind (dict_index args ''index'') (\<lambda>index.
       if index = PStr ''all'' then
         io_bind get_all_index_names (\<lambda>index_names.
         io_bind (for_each index_names (\<lambda>index_name. get_data Pinecone (PStr index_name) []))
           (\<lambda>_. io_return args))
       else
         io_bind (dict_index args ''index'') (\<lambda>index.
         io_bind (get_data Pinecone index []) (\<lambda>_. io_return args)))))))))"

definition export_weaviate :: "pydict \<Rightarrow> pydict io" where
  "export_weaviate args0 =
     io_bind (set_arg_from_input args0 ''url''
                ''Enter the location of Weaviate instance: '') (\<lambda>args1.
     io_bind (set_arg_from_input args1 ''class_name''
                ''Enter the name of class to export, or type all to export all classes: '')
       (\<lambda>args2.
     io_bind (set_arg_from_input args2 ''include_crossrefs''
                ''Include cross references, enter Y or N: '') (\<lambda>args3.
     io_bind (dict_index args3 ''include_crossrefs'') (\<lambda>answer.
       let args = (if answer = PStr ''Y''
                   then dict_set args3 ''include_crossrefs'' (PBool True)
                   else dict_set args3 ''include_crossrefs'' (PBool False)) in
     io_bind (dict_index args ''class_name'') (\<lambda>class_name.
       if class_name = PStr ''all'' then
         io_bind (construct Weaviate args) (\<lambda>_.
         io_bind get_all_class_names (\<lambda>class_names.
         io_bind (for_each class_names (\<lambda>class_name.
                    io_bind (dict_index args ''include_crossrefs'') (\<lambda>include_crossrefs.
                    get_data Weaviate (PStr class_name) [include_crossrefs])))
           (\<lambda>_. io_return args)))
       else
         io_bind (construct Weaviate args) (\<lambda>_.
         io_bind (dict_index args ''class_name'') (\<lambda>class_name.
         io_bind (dict_index args ''include_crossrefs'') (\<lambda>include_crossrefs.
         io_bind (get_data Weaviate class_name [include_crossrefs])
           (\<lambda>_. io_return args)))))))))"

definition export_qdrant :: "pydict \<Rightarrow> pydict io" where
  "export_qdrant args0 =
     io_bind (set_arg_from_input args0 ''url''
                ''Enter the location of Qdrant instance: '') (\<lambda>args1.
     io_bind (set_arg_from_input args1 ''collection''
                ''Enter the name of collection to export, or type all to export all collections: '')
       (\<lambda>args.
     io_bind (construct Qdrant args) (\<lambda>_.
     io_bind (dict_index args ''collection'') (\<lambda>collection.
       if collection = PStr ''all'' then
         io_bind get_all_collection_names (\<lambda>collection_names.
         io_bind (for_each collection_names
                    (\<lambda>collection_name. get_data Qdrant (PStr collection_name) []))
           (\<lambda>_. io_return args))
       else
         io_bind (dict_index args ''collection'') (\<lambda>collection.
         io_bind (get_data Qdrant collection []) (\<lambda>_. io_return args))))))"

section \<open>The command line (lines 134-187)\<close>

text \<open>
  \<open>main\<close> declares one top-level option, \<open>-m/--model_name\<close>, and three subcommands with
  their own options.  Each option stores one value under its \<open>dest\<close>, converted by its
  \<open>type\<close>: \<open>str\<close> keeps the string, \<open>bool\<close> is Python's truth value of the string, false
  only for the empty string.
\<close>

datatype argtype = TStr | TBool

fun convert :: "argtype \<Rightarrow> string \<Rightarrow> pyval" where
  "convert TStr s = PStr s"
| "convert TBool s = PBool (s \<noteq> [])"

record option_spec =
  opt_short :: string
  opt_long :: string
  opt_dest :: string
  opt_type :: argtype
  opt_default :: pyval

definition top_options :: "option_spec list" where
  "top_options =
     [\<lparr>opt_short = ''-m'', opt_long = ''--model_name'', opt_dest = ''model_name'',
       opt_type = TStr, opt_default = PStr ''text-embedding-ada-002''\<rparr>]"

definition pinecone_options :: "option_spec list" where
  "pinecone_options =
     [\<lparr>opt_short = ''-e'', opt_long = ''--environment'', opt_dest = ''environment'',
       opt_type = TStr, opt_default = PNone\<rparr>,
      \<lparr>opt_short = ''-i'', opt_long = ''--index'', opt_dest = ''index'',
       opt_type = TStr, opt_default = PStr ''all''\<rparr>]"

definition weaviate_options :: "option_spec list" where
  "weaviate_options =
     [\<lparr>opt_short = ''-u'', opt_long = ''--url'', opt_dest = ''url'',
       opt_type = TStr, opt_default = PNone\<rparr>,
      \<lparr>opt_short = ''-c'', opt_long = ''--class_name'', opt_dest = ''class_name'',
       opt_type = TStr, opt_default = PNone\<rparr>,
      \<lparr>opt_short = ''-i'', opt_long = ''--include_crossrefs'', opt_dest = ''include_crossrefs'',
       opt_type = TBool, opt_default = PNone\<rparr>]"

definition qdrant_options :: "option_spec list" where
  "qdrant_options =
     [\<lparr>opt_short = ''-u'', opt_long = ''--url'', opt_dest = ''url'',
       opt_type = TStr, opt_default = PNone\<rparr>,
      \<lparr>opt_short = ''-c'', opt_long = ''--collection'', opt_dest = ''collection'',
       opt_type = TStr, opt_default = PNone\<rparr>]"

definition subparser :: "string \<Rightarrow> option_spec list option" where
  "subparser name =
     (if name = ''pinecone'' then Some pinecone_options
      else if name = ''weaviate'' then Some weaviate_options
      else if name = ''qdrant'' then Some qdrant_options
      else None)"

text \<open>
  How argparse reads one command-line word for a parser with the given options.  A
  word that does not start with \<open>-\<close>, the empty word and the word \<open>-\<close> are positional.
  A word equal to an option string selects that option; \<open>-h\<close> and \<open>--help\<close> are added
  to every parser by argparse.  Any other word starting with \<open>-\<close> is an option the
  parser does not know.

  Argparse also accepts \<open>--\<close>, \<open>--opt=value\<close>, unambiguous prefixes of long options,
  \<open>-xVALUE\<close>, and treats words that look like negative numbers or contain a space as
  positional.  These forms are outside the model: \<open>Unsupported\<close>, and a command line
  that contains one gets the result \<open>NotModelled\<close>.
\<close>

datatype token_class = Positional | HelpOpt | KnownOpt option_spec | UnknownOpt | Unsupported

definition is_prefix :: "string \<Rightarrow> string \<Rightarrow> bool" where
  "is_prefix t l = (take (length t) l = t)"

definition unsupported_form :: "option_spec list \<Rightarrow> string \<Rightarrow> bool" where
  "unsupported_form opts t =
     (t = ''--'' \<or> CHR ''='' \<in> set t \<or> CHR '' '' \<in> set t \<or>
      (if take 2 t = ''--''
       then list_ex (is_prefix t) (''--help'' # map opt_long opts)
       else take 2 t \<in> set (''-h'' # map opt_short opts) \<or>
            (case drop 1 t of [] \<Rightarrow> False | c # _ \<Rightarrow> c \<in> set ''0123456789.'')))"

definition classify :: "option_spec list \<Rightarrow> string \<Rightarrow> token_class" where
  "classify opts t =
     (case t of
        [] \<Rightarrow> Positional
      | c # cs \<Rightarrow>
          if c \<noteq> CHR ''-'' then Positional
          else if t = ''-h'' \<or> t = ''--help'' then HelpOpt
          else (case find (\<lambda>opt. t = opt_short opt \<or> t = opt_long opt) opts of
                  Some opt \<Rightarrow> KnownOpt opt
                | None \<Rightarrow>
                    if cs = [] then Positional
                    else if unsupported_form opts t then Unsupported
                    else UnknownOpt))"

text \<open>
  One parser reading its words from left to right.  \<open>extras\<close> records that a word was
  left over: argparse reports "unrecognized arguments" and exits with status 2, but
  only after all words have been read.  Reading \<open>-h\<close> exits with status 0 at once; an
  option that is not followed by a positional word exits with status 2 at once.
\<close>

fun parse_options :: "option_spec list \<Rightarrow> string list \<Rightarrow> pydict \<Rightarrow> bool \<Rightarrow> error + pydict" where
  "parse_options opts [] ns extras = (if extras then Inl (SystemExit 2) else Inr ns)"
| "parse_options opts (t # ts) ns extras =
     (case classify opts t of
        Positional \<Rightarrow> parse_options opts ts ns True
      | UnknownOpt \<Rightarrow> parse_options opts ts ns True
      | HelpOpt \<Rightarrow> Inl (SystemExit 0)
      | Unsupported \<Rightarrow> Inl NotModelled
      | KnownOpt opt \<Rightarrow>
          (case ts of
             [] \<Rightarrow> Inl (SystemExit 2)
           | v # ts' \<Rightarrow>
               (case classify opts v of
                  Positional \<Rightarrow>
                    parse_options opts ts' (dict_set ns (opt_dest opt) (convert (opt_type opt) v))
                      extras
                | Unsupported \<Rightarrow> Inl NotModelled
                | _ \<Rightarrow> Inl (SystemExit 2))))"

definition defaults :: "option_spec list \<Rightarrow> pydict" where
  "defaults opts = map (\<lambda>opt. (opt_dest opt, opt_default opt)) opts"

text \<open>
  The subcommand: the first positional word that is not the value of \<open>-m\<close> names the
  subparser, which reads all the words after it into a namespace of its own; that
  namespace is then copied into the top-level one, key by key.
\<close>

definition parse_subcommand :: "string \<Rightarrow> string list \<Rightarrow> pydict \<Rightarrow> error + pydict" where
  "parse_subcommand name ts ns =
     (case subparser name of
        None \<Rightarrow> Inl (SystemExit 2)
      | Some opts \<Rightarrow>
          if list_ex (\<lambda>t. classify opts t = Unsupported) ts then Inl NotModelled
          else (case parse_options opts ts (defaults opts) False of
                  Inl e \<Rightarrow> Inl e
                | Inr sub \<Rightarrow>
                    Inr (fold (\<lambda>(k, v) d. dict_set d k v) sub
                           (dict_set ns ''vector_database'' (PStr name)))))"

fun parse_top :: "string list \<Rightarrow> pydict \<Rightarrow> bool \<Rightarrow> error + pydict" where
  "parse_top [] ns extras = (if extras then Inl (SystemExit 2) else Inr ns)"
| "parse_top (t # ts) ns extras =
     (case classify top_options t of
        Positional \<Rightarrow>
          (case parse_subcommand t ts ns of
             Inl e \<Rightarrow> Inl e
           | Inr ns' \<Rightarrow> if extras then Inl (SystemExit 2) else Inr ns')
      | UnknownOpt \<Rightarrow> parse_top ts ns True
      | HelpOpt \<Rightarrow> Inl (SystemExit 0)
      | Unsupported \<Rightarrow> Inl NotModelled
      | KnownOpt opt \<Rightarrow>
          (case ts of
             [] \<Rightarrow> Inl (SystemExit 2)
           | v # ts' \<Rightarrow>
               (case classify top_options v of
                  Positional \<Rightarrow>
                    parse_top ts' (dict_set ns (opt_dest opt) (convert (opt_type opt) v)) extras
                | Unsupported \<Rightarrow> Inl NotModelled
                | _ \<Rightarrow> Inl (SystemExit 2))))"

text \<open>\<open>vars(parser.parse_args())\<close> on \<open>sys.argv[1:]\<close>.\<close>

definition parse_args :: "string list \<Rightarrow> error + pydict" where
  "parse_args ws =
     (if list_ex (\<lambda>t. classify top_options t = Unsupported) ws then Inl NotModelled
      else parse_top ws (defaults top_options @ [(''vector_database'', PNone)]) False)"

section \<open>main (lines 99-203)\<close>

text \<open>
  When argparse exits, it has written its help (status 0) or a usage error (any other
  status).  The branch for an unknown backend prints a message, asks for a name,
  appends \<open>--vector_database\<close> and the name to \<open>sys.argv\<close> and calls \<open>main\<close> again; every
  such call has read one more line of standard input.
\<close>

function main :: "unit io" where
  "main w =
     (case parse_args (argv w) of
        Inl (SystemExit c) \<Rightarrow>
          (Inl (SystemExit c), emit (if c = 0 then ArgparseHelp else ArgparseUsageError) w)
      | Inl e \<Rightarrow> (Inl e, w)
      | Inr args \<Rightarrow>
          (case dict_get args ''vector_database'' of
             None \<Rightarrow> (Inl (KeyError ''vector_database''), w)
           | Some vector_database \<Rightarrow>
               (case
                  (if vector_database = PStr ''pinecone'' then
                     (case export_pinecone args w of
                        (Inl e, w') \<Rightarrow> (Inl e, w') | (Inr _, w') \<Rightarrow> (Inr (), w'))
                   else if vector_database = PStr ''weaviate'' then
                     (case export_weaviate args w of
                        (Inl e, w') \<Rightarrow> (Inl e, w') | (Inr _, w') \<Rightarrow> (Inr (), w'))
                   else if vector_database = PStr ''qdrant'' then
                     (case export_qdrant args w of
                        (Inl e, w') \<Rightarrow> (Inl e, w') | (Inr _, w') \<Rightarrow> (Inr (), w'))
                   else
                     (case input ''Enter the name of vector database to export: ''
                             (emit (PrintStr ''Invalid vector database'') w) of
                        (Inl e, w') \<Rightarrow> (Inl e, w')
                      | (Inr name, w') \<Rightarrow>
                          main (w'\<lparr>argv := argv w' @ [''--vector_database'', name]\<rparr>)))
                of
                  (Inl e, w') \<Rightarrow> (Inl e, w')
                | (Inr _, w') \<Rightarrow> (Inr (), emit (PrintStr ''Export completed.'') w'))))"
  by pat_completeness auto
termination
  by (relation "measure (\<lambda>w. length (stdin w))")
     (auto simp: input_def emit_def split: list.splits)

declare main.simps [simp del]

section \<open>Observations on runs\<close>

text \<open>The calls made on the adapter objects, among the events of a run.\<close>

fun is_call :: "event \<Rightarrow> bool" where
  "is_call (Construct b d) = True"
| "is_call (ListNames b) = True"
| "is_call (GetData b xs) = True"
| "is_call _ = False"

definition calls :: "event list \<Rightarrow> event list" where
  "calls es = filter is_call es"

text \<open>
  \<open>steps w es w'\<close>: a run from \<open>w\<close> to \<open>w'\<close> emits exactly the events \<open>es\<close> and leaves
  the service, the environment and the command line as they are.
\<close>

definition steps :: "world \<Rightarrow> event list \<Rightarrow> world \<Rightarrow> bool" where
  "steps w es w' \<longleftrightarrow>
     trace w' = trace w @ es \<and> service w' = service w \<and> environ w' = environ w \<and>
     argv w' = argv w"

text \<open>An action that only adds events, whatever its result.\<close>

definition extends_trace :: "'a io \<Rightarrow> bool" where
  "extends_trace m \<longleftrightarrow> (\<forall>w r w'. m w = (r, w') \<longrightarrow> (\<exists>es. steps w es w'))"

text \<open>An action that never emits the event \<open>e\<close>, whatever its result.\<close>

definition never_emits :: "event \<Rightarrow> 'a io \<Rightarrow> bool" where
  "never_emits e m \<longleftrightarrow>
     (\<forall>w r w'. m w = (r, w') \<longrightarrow> (\<exists>es. steps w es w' \<and> e \<notin> set es))"

text \<open>The test of lines 17 and 27: the argument is absent or \<open>None\<close>.\<close>

definition unset :: "pydict \<Rightarrow> string \<Rightarrow> bool" where
  "unset args arg_name \<longleftrightarrow>
     dict_get args arg_name = None \<or> dict_get args arg_name = Some PNone"


section \<open>Facts about dictionaries and traces\<close>

lemma dict_get_set: "dict_get (dict_set d k v) k' = (if k' = k then Some v else dict_get d k')"
  by (induction d) (auto simp: dict_get_def)

lemma emitted_self: "emitted w w = []"
  by (simp add: emitted_def)

lemma emitted_emit: "emitted w (emit e w) = [e]"
  by (simp add: emitted_def emit_def)

lemma emitted_emit_stdin: "emitted w ((emit e w)\<lparr>stdin := ls\<rparr>) = [e]"
  by (simp add: emitted_def emit_def)

lemma emitted_emit_tty: "emitted w ((emit e w)\<lparr>tty := ls\<rparr>) = [e]"
  by (simp add: emitted_def emit_def)

lemma steps_refl: "steps w [] w"
  by (simp add: steps_def)

lemma steps_trans: "steps w es w' \<Longrightarrow> steps w' es' w'' \<Longrightarrow> steps w (es @ es') w''"
  by (simp add: steps_def)

lemma steps_emit: "steps w [e] (emit e w)"
  by (simp add: steps_def emit_def)

lemma steps_emitted: "steps w es w' \<Longrightarrow> emitted w w' = es"
  by (simp add: steps_def emitted_def)

lemma io_bind_Inr:
  assumes "io_bind m f w = (Inr y, w')"
  obtains x w1 where "m w = (Inr x, w1)" and "f x w1 = (Inr y, w')"
  using assms by (auto simp: io_bind_def split: prod.splits sum.splits)

lemma io_bind_cases:
  assumes "io_bind m f w = (r, w')"
  obtains (fail) e where "m w = (Inl e, w')" and "r = Inl e"
        | (ok) x w1 where "m w = (Inr x, w1)" and "f x w1 = (r, w')"
  using assms by (auto simp: io_bind_def split: prod.splits sum.splits)

lemma input_Inr:
  "input p w = (Inr l, w') \<Longrightarrow>
     steps w [Prompt p] w' \<and> stdin w = l # stdin w' \<and> tty w' = tty w"
  by (auto simp: input_def steps_def emit_def split: list.splits)

lemma input_Inl:
  "input p w = (Inl e, w') \<Longrightarrow> e = EOFError \<and> steps w [Prompt p] w' \<and> stdin w = []"
  by (auto simp: input_def steps_def emit_def split: list.splits)

lemma set_arg_from_input_Inr:
  assumes "set_arg_from_input a n p w = (Inr a', w')"
  shows "steps w (if unset a n then [Prompt p] else []) w'"
    and "tty w' = tty w"
    and "\<not> unset a' n"
    and "k \<noteq> n \<Longrightarrow> dict_get a' k = dict_get a k"
    and "\<not> unset a n \<Longrightarrow> a' = a"
    and "unset a n \<Longrightarrow> \<exists>l. stdin w = l # stdin w' \<and> a' = dict_set a n (PStr l)"
  using assms
  by (auto simp: set_arg_from_input_def unset_def steps_refl dict_get_set
      dest!: input_Inr split: if_splits prod.splits sum.splits)

lemma set_arg_from_input_Inl:
  assumes "set_arg_from_input a n p w = (Inl e, w')"
  shows "e = EOFError \<and> steps w [Prompt p] w' \<and> unset a n"
  using assms
  by (auto simp: set_arg_from_input_def unset_def
      dest!: input_Inl split: if_splits prod.splits sum.splits)

lemma set_arg_from_password_Inr:
  assumes "set_arg_from_password a n p ev w = (Inr a', w')"
  shows "steps w (if getenv ev w = None \<and> unset a n then [GetpassPrompt p] else []) w'"
    and "stdin w' = stdin w"
    and "k \<noteq> n \<Longrightarrow> dict_get a' k = dict_get a k"
    and "getenv ev w = Some v \<Longrightarrow> dict_get a' n = Some (PStr v)"
    and "getenv ev w = None \<Longrightarrow> \<not> unset a n \<Longrightarrow> a' = a"
    and "getenv ev w = None \<Longrightarrow> unset a n \<Longrightarrow>
           \<exists>l. tty w = l # tty w' \<and> a' = dict_set a n (PStr l)"
  using assms
  by (auto simp: set_arg_from_password_def getpass_def unset_def steps_def emit_def
        dict_get_set
      split: if_splits prod.splits sum.splits option.splits list.splits)

lemma set_arg_from_password_Inl:
  assumes "set_arg_from_password a n p ev w = (Inl e, w')"
  shows "e = EOFError \<and> steps w [GetpassPrompt p] w'"
  using assms
  by (auto simp: set_arg_from_password_def getpass_def unset_def steps_def emit_def
      split: if_splits prod.splits sum.splits option.splits list.splits)


lemma calls_append: "calls (xs @ ys) = calls xs @ calls ys"
  by (simp add: calls_def)

lemma calls_prompts:
  "calls (if c then [Prompt p] else []) = []"
  "calls (if c then [GetpassPrompt p] else []) = []"
  by (simp_all add: calls_def)

lemma construct_Inr:
  "construct b a w = (Inr u, w') \<Longrightarrow> steps w [Construct b a] w'"
  by (auto simp: construct_def steps_emit split: if_splits)

lemma get_all_names_Inr:
  "get_all_names b w = (Inr ns, w') \<Longrightarrow>
     steps w [ListNames b] w' \<and> collection_names (service w) = Some ns"
  by (auto simp: get_all_names_def steps_emit split: option.splits)

lemma get_data_Inr:
  "get_data b n ex w = (Inr u, w') \<Longrightarrow> steps w [GetData b (n # ex)] w'"
  by (auto simp: get_data_def steps_emit split: if_splits)

lemma dict_index_Inr:
  "dict_index d k w = (Inr v, w') \<Longrightarrow> w' = w \<and> dict_get d k = Some v"
  by (auto simp: dict_index_def split: option.splits)

lemma print_args_Inr:
  "print_args d w = (Inr u, w') \<Longrightarrow> steps w [PrintArgs d] w'"
  by (auto simp: print_args_def steps_emit)

lemma for_each_get_data_Inr:
  "for_each ns (\<lambda>n. get_data b (PStr n) ex) w = (Inr u, w') \<Longrightarrow>
     steps w (map (\<lambda>n. GetData b (PStr n # ex)) ns) w'"
proof (induction ns arbitrary: w)
  case Nil
  then show ?case by (simp add: steps_refl)
next
  case (Cons n ns)
  from Cons.prems obtain w1 where
    one: "get_data b (PStr n) ex w = (Inr (), w1)" and
    rest: "for_each ns (\<lambda>n. get_data b (PStr n) ex) w1 = (Inr u, w')"
    by (auto split: prod.splits sum.splits)
  from steps_trans [OF get_data_Inr [OF one] Cons.IH [OF rest]]
  show ?case by simp
qed

lemma export_pinecone_calls:
  assumes run: "export_pinecone a w = (Inr a', w')"
  shows "\<exists>index. dict_get a' ''index'' = Some index \<and>
           (if index = PStr ''all''
            then \<exists>names. collection_names (service w) = Some names \<and>
                   calls (emitted w w') =
                     Construct Pinecone a' # ListNames Pinecone #
                     map (\<lambda>n. GetData Pinecone [PStr n]) names
            else calls (emitted w w') = [Construct Pinecone a', GetData Pinecone [index]])"
proof -
  from run obtain a1 w1 where
    s1: "set_arg_from_input a ''environment''
           ''Enter the environment of Pinecone instance: '' w = (Inr a1, w1)" and
    r1: "io_bind (set_arg_from_input a1 ''index'' index_prompt) (\<lambda>args2.
     io_bind (set_arg_from_input args2 ''model_name'' ''Enter the name of model used:'') (\<lambda>args3.
     io_bind (set_arg_from_password args3 ''pinecone_api_key''
                ''Enter your Pinecone API key: '' ''PINECONE_API_KEY'') (\<lambda>args.
     io_bind (print_args args) (\<lambda>_.
     io_bind (construct Pinecone args) (\<lambda>_.
     io_bind (dict_index args ''index'') (\<lambda>index.
       if index = PStr ''all'' then
         io_bind get_all_index_names (\<lambda>index_names.
         io_bind (for_each index_names (\<lambda>index_name. get_data Pinecone (PStr index_name) []))
           (\<lambda>_. io_return args))
       else
         io_bind (dict_index args ''index'') (\<lambda>index.
         io_bind (get_data Pinecone index []) (\<lambda>_. io_return args)))))))) w1 = (Inr a', w')"
    unfolding export_pinecone_def by (erule io_bind_Inr)
  from r1 obtain a2 w2 a3 w3 a4 w4 u5 w5 u6 w6 index w7 where
    s2: "set_arg_from_input a1 ''index'' index_prompt w1 = (Inr a2, w2)" and
    s3: "set_arg_from_input a2 ''model_name'' ''Enter the name of model used:'' w2 = (Inr a3, w3)" and
    s4: "set_arg_from_password a3 ''pinecone_api_key''
                ''Enter your Pinecone API key: '' ''PINECONE_API_KEY'' w3 = (Inr a4, w4)" and
    s5: "print_args a4 w4 = (Inr u5, w5)" and
    s6: "construct Pinecone a4 w5 = (Inr u6, w6)" and
    s7: "dict_index a4 ''index'' w6 = (Inr index, w7)" and
    r7: "(if index = PStr ''all'' then
         io_bind get_all_index_names (\<lambda>index_names.
         io_bind (for_each index_names (\<lambda>index_name. get_data Pinecone (PStr index_name) []))
           (\<lambda>_. io_return a4))
       else
         io_bind (dict_index a4 ''index'') (\<lambda>index.
         io_bind (get_data Pinecone index []) (\<lambda>_. io_return a4))) w7 = (Inr a', w')"
    by (elim io_bind_Inr) blast
  note pre = steps_trans [OF steps_trans [OF steps_trans [OF steps_trans [OF steps_trans
    [OF set_arg_from_input_Inr(1) [OF s1] set_arg_from_input_Inr(1) [OF s2]]
    set_arg_from_input_Inr(1) [OF s3]] set_arg_from_password_Inr(1) [OF s4]]
    print_args_Inr [OF s5]] construct_Inr [OF s6]]
  from s7 have w7: "w7 = w6" and idx: "dict_get a4 ''index'' = Some index"
    by (auto dest: dict_index_Inr)
  show ?thesis
  proof (cases "index = PStr ''all''")
    case True
    with r7 obtain names w8 u9 w9 where
      t1: "get_all_index_names w7 = (Inr names, w8)" and
      t2: "for_each names (\<lambda>index_name. get_data Pinecone (PStr index_name) []) w8 = (Inr u9, w9)" and
      t3: "io_return a4 w9 = (Inr a', w')"
      by (auto elim!: io_bind_Inr)
    from t3 have eq: "a' = a4" "w' = w9" by (auto simp: io_return_def)
    from t1 have n1: "steps w6 [ListNames Pinecone] w8"
      and n2: "collection_names (service w6) = Some names"
      by (auto simp: get_all_index_names_def w7 dest: get_all_names_Inr)
    from pre have "service w6 = service w" by (simp add: steps_def)
    with n2 have n3: "collection_names (service w) = Some names" by simp
    from steps_emitted [OF steps_trans [OF steps_trans [OF pre n1] for_each_get_data_Inr [OF t2]]]
    have "calls (emitted w w') = Construct Pinecone a' # ListNames Pinecone #
                     map (\<lambda>n. GetData Pinecone [PStr n]) names"
      by (simp add: eq calls_append calls_prompts) (simp add: calls_def comp_def)
    with True idx n3 eq show ?thesis by simp
  next
    case False
    with r7 obtain index' w8 u9 w9 where
      t1: "dict_index a4 ''index'' w7 = (Inr index', w8)" and
      t2: "get_data Pinecone index' [] w8 = (Inr u9, w9)" and
      t3: "io_return a4 w9 = (Inr a', w')"
      by (auto elim!: io_bind_Inr)
    from t3 have eq: "a' = a4" "w' = w9" by (auto simp: io_return_def)
    from t1 idx have i': "index' = index" "w8 = w6"
      by (auto simp: w7 dest: dict_index_Inr)
    from steps_emitted [OF steps_trans [OF pre get_data_Inr [OF t2 [unfolded i']]]]
    have "calls (emitted w w') = [Construct Pinecone a', GetData Pinecone [index]]"
      by (simp add: eq calls_append calls_prompts) (simp add: calls_def)
    with False idx eq show ?thesis by simp
  qed
qed


lemma for_each_crossrefs_Inr:
  assumes ic: "dict_get args ''include_crossrefs'' = Some ic"
  shows "for_each ns (\<lambda>class_name.
            io_bind (dict_index args ''include_crossrefs'') (\<lambda>include_crossrefs.
            get_data Weaviate (PStr class_name) [include_crossrefs])) w = (Inr u, w') \<Longrightarrow>
     steps w (map (\<lambda>n. GetData Weaviate [PStr n, ic]) ns) w'"
proof (induction ns arbitrary: w)
  case Nil
  then show ?case by (simp add: steps_refl)
next
  case (Cons n ns)
  from Cons.prems obtain w1 where
    one: "io_bind (dict_index args ''include_crossrefs'') (\<lambda>include_crossrefs.
            get_data Weaviate (PStr n) [include_crossrefs]) w = (Inr (), w1)" and
    rest: "for_each ns (\<lambda>class_name.
            io_bind (dict_index args ''include_crossrefs'') (\<lambda>include_crossrefs.
            get_data Weaviate (PStr class_name) [include_crossrefs])) w1 = (Inr u, w')"
    by (auto split: prod.splits sum.splits)
  from one ic have "get_data Weaviate (PStr n) [ic] w = (Inr (), w1)"
    by (auto elim!: io_bind_Inr dest: dict_index_Inr)
  from steps_trans [OF get_data_Inr [OF this] Cons.IH [OF rest]]
  show ?case by simp
qed

lemma export_weaviate_calls:
  assumes run: "export_weaviate a w = (Inr a', w')"
  shows "\<exists>class_name b. dict_get a' ''class_name'' = Some class_name \<and>
           dict_get a' ''include_crossrefs'' = Some (PBool b) \<and>
           (\<forall>x. dict_get a ''include_crossrefs'' = Some (PBool x) \<longrightarrow> \<not> b) \<and>
           (dict_get a ''include_crossrefs'' = Some (PStr ''Y'') \<longrightarrow> b) \<and>
           (unset a ''include_crossrefs'' \<longrightarrow>
              Prompt ''Include cross references, enter Y or N: '' \<in> set (emitted w w')) \<and>
           (if class_name = PStr ''all''
            then \<exists>names. collection_names (service w) = Some names \<and>
                   calls (emitted w w') =
                     Construct Weaviate a' # ListNames Weaviate #
                     map (\<lambda>n. GetData Weaviate [PStr n, PBool b]) names
            else calls (emitted w w') =
                   [Construct Weaviate a', GetData Weaviate [class_name, PBool b]])"
proof -
  define args where "args a3 answer =
     (if answer = PStr ''Y'' then dict_set a3 ''include_crossrefs'' (PBool True)
      else dict_set a3 ''include_crossrefs'' (PBool False))" for a3 :: pydict and answer
  from run obtain a1 w1 a2 w2 a3 w3 answer w4 class_name w5 where
    s1: "set_arg_from_input a ''url'' ''Enter the location of Weaviate instance: '' w
           = (Inr a1, w1)" and
    s2: "set_arg_from_input a1 ''class_name''
           ''Enter the name of class to export, or type all to export all classes: '' w1
           = (Inr a2, w2)" and
    s3: "set_arg_from_input a2 ''include_crossrefs''
           ''Include cross references, enter Y or N: '' w2 = (Inr a3, w3)" and
    s4: "dict_index a3 ''include_crossrefs'' w3 = (Inr answer, w4)" and
    s5: "dict_index (args a3 answer) ''class_name'' w4 = (Inr class_name, w5)" and
    r5: "(if class_name = PStr ''all'' then
         io_bind (construct Weaviate (args a3 answer)) (\<lambda>_.
         io_bind get_all_class_names (\<lambda>class_names.
         io_bind (for_each class_names (\<lambda>class_name.
                    io_bind (dict_index (args a3 answer) ''include_crossrefs'')
                      (\<lambda>include_crossrefs.
                    get_data Weaviate (PStr class_name) [include_crossrefs])))
           (\<lambda>_. io_return (args a3 answer))))
       else
         io_bind (construct Weaviate (args a3 answer)) (\<lambda>_.
         io_bind (dict_index (args a3 answer) ''class_name'') (\<lambda>class_name.
         io_bind (dict_index (args a3 answer) ''include_crossrefs'') (\<lambda>include_crossrefs.
         io_bind (get_data Weaviate class_name [include_crossrefs])
           (\<lambda>_. io_return (args a3 answer)))))) w5 = (Inr a', w')"
    unfolding export_weaviate_def Let_def args_def by (elim io_bind_Inr) blast
  define b where "b = (answer = PStr ''Y'')"
  have ic: "dict_get (args a3 answer) ''include_crossrefs'' = Some (PBool b)"
    by (simp add: args_def b_def dict_get_set)
  note pre = steps_trans [OF steps_trans
    [OF set_arg_from_input_Inr(1) [OF s1] set_arg_from_input_Inr(1) [OF s2]]
    set_arg_from_input_Inr(1) [OF s3]]
  from s4 have w4: "w4 = w3" and ans: "dict_get a3 ''include_crossrefs'' = Some answer"
    by (auto dest: dict_index_Inr)
  from s5 have w5: "w5 = w3" and cn: "dict_get (args a3 answer) ''class_name'' = Some class_name"
    by (auto simp: w4 dest: dict_index_Inr)
  have a12: "dict_get a2 ''include_crossrefs'' = dict_get a ''include_crossrefs''"
    using set_arg_from_input_Inr(4) [OF s1, of "''include_crossrefs''"]
          set_arg_from_input_Inr(4) [OF s2, of "''include_crossrefs''"]
    by simp
  have un2: "unset a2 ''include_crossrefs'' = unset a ''include_crossrefs''"
    by (simp add: unset_def a12)
  have flag: "\<not> b" if "dict_get a ''include_crossrefs'' = Some (PBool x)" for x
  proof -
    from that have "\<not> unset a2 ''include_crossrefs''" by (simp add: unset_def a12)
    from set_arg_from_input_Inr(5) [OF s3 this] that ans a12
    show ?thesis by (auto simp: b_def)
  qed
  have yes: "b" if "dict_get a ''include_crossrefs'' = Some (PStr ''Y'')"
  proof -
    from that have "\<not> unset a2 ''include_crossrefs''" by (simp add: unset_def a12)
    from set_arg_from_input_Inr(5) [OF s3 this] that ans a12
    show ?thesis by (auto simp: b_def)
  qed
  have grow: "\<exists>es. emitted w w' = es0 @ es" if "steps w es0 w3" and "steps w3 es1 w'"
    for es0 es1
    using steps_emitted [OF steps_trans [OF that]] by blast
  have shown: "Prompt ''Include cross references, enter Y or N: '' \<in> set (emitted w w')"
    if un: "unset a ''include_crossrefs''" and tail: "steps w3 es1 w'" for es1
    using steps_emitted [OF steps_trans [OF pre tail]] un by (simp add: un2)
  show ?thesis
  proof (cases "class_name = PStr ''all''")
    case True
    with r5 obtain u6 w6 names w7 u8 w8 where
      t0: "construct Weaviate (args a3 answer) w5 = (Inr u6, w6)" and
      t1: "get_all_class_names w6 = (Inr names, w7)" and
      t2: "for_each names (\<lambda>class_name.
                    io_bind (dict_index (args a3 answer) ''include_crossrefs'')
                      (\<lambda>include_crossrefs.
                    get_data Weaviate (PStr class_name) [include_crossrefs])) w7
             = (Inr u8, w8)" and
      t3: "io_return (args a3 answer) w8 = (Inr a', w')"
      by (auto elim!: io_bind_Inr)
    from t3 have eq: "a' = args a3 answer" "w' = w8" by (auto simp: io_return_def)
    from t1 have n1: "steps w6 [ListNames Weaviate] w7"
      and n2: "collection_names (service w6) = Some names"
      by (auto simp: get_all_class_names_def dest: get_all_names_Inr)
    note tail = steps_trans [OF steps_trans [OF construct_Inr [OF t0 [unfolded w5]] n1]
                  for_each_crossrefs_Inr [OF ic t2]]
    from pre construct_Inr [OF t0 [unfolded w5]] have "service w6 = service w"
      by (simp add: steps_def)
    with n2 have n3: "collection_names (service w) = Some names" by simp
    from steps_emitted [OF steps_trans [OF pre tail]]
    have "calls (emitted w w') = Construct Weaviate a' # ListNames Weaviate #
                     map (\<lambda>n. GetData Weaviate [PStr n, PBool b]) names"
      by (simp add: eq calls_append calls_prompts) (simp add: calls_def comp_def)
    with True cn ic n3 eq flag yes shown [OF _ tail [unfolded eq(2) [symmetric]]]
    show ?thesis by auto
  next
    case False
    with r5 obtain u6 w6 class_name' w7 ic' w8 u9 w9 where
      t0: "construct Weaviate (args a3 answer) w5 = (Inr u6, w6)" and
      t1: "dict_index (args a3 answer) ''class_name'' w6 = (Inr class_name', w7)" and
      t2: "dict_index (args a3 answer) ''include_crossrefs'' w7 = (Inr ic', w8)" and
      t3: "get_data Weaviate class_name' [ic'] w8 = (Inr u9, w9)" and
      t4: "io_return (args a3 answer) w9 = (Inr a', w')"
      by (auto elim!: io_bind_Inr)
    from t4 have eq: "a' = args a3 answer" "w' = w9" by (auto simp: io_return_def)
    from t1 t2 cn ic have i': "class_name' = class_name" "ic' = PBool b" "w8 = w6"
      by (auto dest: dict_index_Inr)
    note tail = steps_trans [OF construct_Inr [OF t0 [unfolded w5]] get_data_Inr [OF t3 [unfolded i']]]
    from steps_emitted [OF steps_trans [OF pre tail]]
    have "calls (emitted w w') = [Construct Weaviate a', GetData Weaviate [class_name, PBool b]]"
      by (simp add: eq calls_append calls_prompts) (simp add: calls_def)
    with False cn ic eq flag yes shown [OF _ tail [unfolded eq(2) [symmetric]]]
    show ?thesis by auto
  qed
qed

text \<open>The definitions a concrete run is evaluated with.\<close>

lemmas run_defs =
  export_pinecone_def export_weaviate_def export_qdrant_def io_bind_def io_return_def
  set_arg_from_input_def set_arg_from_password_def input_def getpass_def getenv_def
  print_args_def construct_def get_all_names_def get_all_index_names_def
  get_all_class_names_def get_all_collection_names_def get_data_def dict_index_def
  dict_get_def emit_def emitted_def calls_def index_prompt_def Let_def

lemma extends_traceD: "extends_trace m \<Longrightarrow> m w = (r, w') \<Longrightarrow> \<exists>es. steps w es w'"
  by (auto simp: extends_trace_def)

lemma extends_bind:
  assumes "extends_trace m" and "\<And>x. extends_trace (f x)"
  shows "extends_trace (io_bind m f)"
  unfolding extends_trace_def
proof (intro allI impI)
  fix w r w'
  assume "io_bind m f w = (r, w')"
  then show "\<exists>es. steps w es w'"
  proof (cases rule: io_bind_cases)
    case (fail e)
    with assms(1) show ?thesis by (auto dest: extends_traceD)
  next
    case (ok x w1)
    from extends_traceD [OF assms(1) ok(1)] obtain es1 where "steps w es1 w1" ..
    moreover from extends_traceD [OF assms(2) ok(2)] obtain es2 where "steps w1 es2 w'" ..
    ultimately show ?thesis by (blast intro: steps_trans)
  qed
qed

lemma extends_if:
  "extends_trace m \<Longrightarrow> extends_trace m' \<Longrightarrow> extends_trace (if c then m else m')"
  by simp

lemma extends_prims:
  "extends_trace (io_return x)"
  "extends_trace (dict_index d k)"
  "extends_trace (print_args d)"
  "extends_trace (construct b d)"
  "extends_trace (get_all_names b)"
  "extends_trace get_all_index_names"
  "extends_trace get_all_class_names"
  "extends_trace get_all_collection_names"
  "extends_trace (get_data b n ex)"
  by (auto simp: extends_trace_def io_return_def dict_index_def print_args_def construct_def
        get_all_names_def get_all_index_names_def get_all_class_names_def
        get_all_collection_names_def get_data_def
      intro: steps_refl steps_emit split: option.splits if_splits)

lemma extends_for_each:
  assumes "\<And>x. extends_trace (body x)"
  shows "extends_trace (for_each xs body)"
  unfolding extends_trace_def
proof (intro allI impI)
  fix w r w'
  show "for_each xs body w = (r, w') \<Longrightarrow> \<exists>es. steps w es w'"
  proof (induction xs arbitrary: w)
    case Nil
    then show ?case by (auto intro: steps_refl)
  next
    case (Cons x xs)
    show ?case
    proof (cases "body x w")
      case (Pair rx w1)
      from extends_traceD [OF assms Pair] obtain es1 where s1: "steps w es1 w1" ..
      show ?thesis
      proof (cases rx)
        case (Inl e)
        with Cons.prems Pair s1 show ?thesis by auto
      next
        case (Inr u)
        with Cons.prems Pair have "for_each xs body w1 = (r, w')" by simp
        from Cons.IH [OF this] s1 show ?thesis by (blast intro: steps_trans)
      qed
    qed
  qed
qed

lemma io_bind_past:
  assumes "io_bind m f w = (r, w')" and "r \<noteq> Inl EOFError"
    and "\<And>e w1. m w = (Inl e, w1) \<Longrightarrow> e = EOFError"
  obtains x w1 where "m w = (Inr x, w1)" and "f x w1 = (r, w')"
  using assms(1)
proof (cases rule: io_bind_cases)
  case (fail e)
  with assms(2,3) show ?thesis by blast
next
  case (ok x w1)
  with that show ?thesis by blast
qed

text \<open>
  Every run of \<open>export_pinecone\<close> that does not end at a prompt with \<open>EOFError\<close> has
  collected the four arguments and printed the dictionary.
\<close>

lemma export_pinecone_prints:
  assumes run: "export_pinecone a w = (r, w')" and r: "r \<noteq> Inl EOFError"
  shows "\<exists>a3 w3 a4 w4 es rest.
           set_arg_from_password a3 ''pinecone_api_key''
             ''Enter your Pinecone API key: '' ''PINECONE_API_KEY'' w3 = (Inr a4, w4) \<and>
           steps w es w3 \<and> tty w3 = tty w \<and>
           dict_get a3 ''pinecone_api_key'' = dict_get a ''pinecone_api_key'' \<and>
           (\<forall>a'. r = Inr a' \<longrightarrow> a' = a4) \<and>
           emitted w w' =
             es @ (if getenv ''PINECONE_API_KEY'' w = None \<and> unset a ''pinecone_api_key''
                   then [GetpassPrompt ''Enter your Pinecone API key: ''] else [])
                @ PrintArgs a4 # rest"
proof -
  let ?tail = "\<lambda>args. io_bind (construct Pinecone args) (\<lambda>_.
     io_bind (dict_index args ''index'') (\<lambda>index.
       if index = PStr ''all'' then
         io_bind get_all_index_names (\<lambda>index_names.
         io_bind (for_each index_names (\<lambda>index_name. get_data Pinecone (PStr index_name) []))
           (\<lambda>_. io_return args))
       else
         io_bind (dict_index args ''index'') (\<lambda>index.
         io_bind (get_data Pinecone index []) (\<lambda>_. io_return args))))"
  have tail: "extends_trace (?tail args)" for args
    by (intro extends_bind extends_if extends_prims extends_for_each)
  let ?k4 = "\<lambda>args. io_bind (print_args args) (\<lambda>_. ?tail args)"
  let ?k3 = "\<lambda>args3. io_bind (set_arg_from_password args3 ''pinecone_api_key''
                ''Enter your Pinecone API key: '' ''PINECONE_API_KEY'') ?k4"
  let ?k2 = "\<lambda>args2. io_bind (set_arg_from_input args2 ''model_name''
                ''Enter the name of model used:'') ?k3"
  let ?k1 = "\<lambda>args1. io_bind (set_arg_from_input args1 ''index'' index_prompt) ?k2"
  from run have "io_bind (set_arg_from_input a ''environment''
           ''Enter the environment of Pinecone instance: '') ?k1 w = (r, w')"
    by (simp add: export_pinecone_def)
  from this r obtain a1 w1 where
    s1: "set_arg_from_input a ''environment''
           ''Enter the environment of Pinecone instance: '' w = (Inr a1, w1)" and
    r1: "?k1 a1 w1 = (r, w')"
    by (rule io_bind_past) (auto dest: set_arg_from_input_Inl)
  from r1 r obtain a2 w2 where
    s2: "set_arg_from_input a1 ''index'' index_prompt w1 = (Inr a2, w2)" and
    r2: "?k2 a2 w2 = (r, w')"
    by (rule io_bind_past) (auto dest: set_arg_from_input_Inl)
  from r2 r obtain a3 w3 where
    s3: "set_arg_from_input a2 ''model_name'' ''Enter the name of model used:'' w2
           = (Inr a3, w3)" and
    r3: "?k3 a3 w3 = (r, w')"
    by (rule io_bind_past) (auto dest: set_arg_from_input_Inl)
  from r3 r obtain a4 w4 where
    s4: "set_arg_from_password a3 ''pinecone_api_key''
                ''Enter your Pinecone API key: '' ''PINECONE_API_KEY'' w3 = (Inr a4, w4)" and
    r4: "?k4 a4 w4 = (r, w')"
    by (rule io_bind_past) (auto dest: set_arg_from_password_Inl)
  from r4 r obtain u5 w5 where
    s5: "print_args a4 w4 = (Inr u5, w5)" and
    r5: "?tail a4 w5 = (r, w')"
    by (rule io_bind_past) (auto simp: print_args_def)
  from extends_traceD [OF tail r5] obtain rest where t: "steps w5 rest w'" ..
  have res: "\<forall>a'. r = Inr a' \<longrightarrow> a' = a4"
    using r5 by (auto elim!: io_bind_Inr simp: io_return_def split: if_splits)
  note pre = steps_trans [OF steps_trans
    [OF set_arg_from_input_Inr(1) [OF s1] set_arg_from_input_Inr(1) [OF s2]]
    set_arg_from_input_Inr(1) [OF s3]]
  let ?es = "(if unset a ''environment''
            then [Prompt ''Enter the environment of Pinecone instance: ''] else []) @
           (if unset a1 ''index'' then [Prompt index_prompt] else []) @
           (if unset a2 ''model_name'' then [Prompt ''Enter the name of model used:''] else [])"
  from pre have pre': "steps w ?es w3" by simp
  have tty3: "tty w3 = tty w"
    using set_arg_from_input_Inr(2) [OF s1] set_arg_from_input_Inr(2) [OF s2]
          set_arg_from_input_Inr(2) [OF s3] by simp
  have key3: "dict_get a3 ''pinecone_api_key'' = dict_get a ''pinecone_api_key''"
    using set_arg_from_input_Inr(4) [OF s1, of "''pinecone_api_key''"]
          set_arg_from_input_Inr(4) [OF s2, of "''pinecone_api_key''"]
          set_arg_from_input_Inr(4) [OF s3, of "''pinecone_api_key''"] by simp
  have env3: "getenv ''PINECONE_API_KEY'' w3 = getenv ''PINECONE_API_KEY'' w"
    using pre by (simp add: getenv_def steps_def)
  have un3: "unset a3 ''pinecone_api_key'' = unset a ''pinecone_api_key''"
    by (simp add: unset_def key3)
  from steps_emitted [OF steps_trans [OF steps_trans [OF steps_trans
         [OF pre set_arg_from_password_Inr(1) [OF s4]] print_args_Inr [OF s5]] t]]
  have "emitted w w' =
          ?es @ (if getenv ''PINECONE_API_KEY'' w = None \<and> unset a ''pinecone_api_key''
           then [GetpassPrompt ''Enter your Pinecone API key: ''] else []) @
          PrintArgs a4 # rest"
    by (simp add: env3 un3)
  with s4 pre' tty3 key3 res show ?thesis by blast
qed

text \<open>The definitions the command line of a concrete run is parsed with.\<close>

lemmas parse_defs =
  parse_args_def parse_subcommand_def subparser_def defaults_def classify_def
  unsupported_form_def is_prefix_def top_options_def pinecone_options_def
  weaviate_options_def qdrant_options_def

lemma classify_known:
  "classify opts t = KnownOpt opt \<Longrightarrow>
     opt \<in> set opts \<and> (t = opt_short opt \<or> t = opt_long opt)"
  by (auto simp: classify_def find_Some_iff split: list.splits if_splits option.splits)

lemma keys_dict_set:
  "map fst (dict_set d k v) = (if k \<in> fst ` set d then map fst d else map fst d @ [k])"
  by (induction d) fastforce+

lemma set_keys_dict_set: "fst ` set (dict_set d k v) = insert k (fst ` set d)"
  using keys_dict_set [of d k v, THEN arg_cong, of set]
  by (auto simp del: dict_set.simps split: if_splits)

lemma dict_get_Cons:
  "dict_get ((k1, v1) # d) k = (if k = k1 then Some v1 else dict_get d k)"
  by (simp add: dict_get_def)

lemma dict_get_fold_set:
  "distinct (map fst sub) \<Longrightarrow>
     dict_get (fold (\<lambda>(k, v) d. dict_set d k v) sub d0) k
       = (case dict_get sub k of Some v \<Rightarrow> Some v | None \<Rightarrow> dict_get d0 k)"
proof (induction sub arbitrary: d0)
  case Nil
  then show ?case by (simp add: dict_get_def)
next
  case (Cons x sub)
  obtain k1 v1 where x: "x = (k1, v1)" by (cases x)
  from Cons.prems have d: "distinct (map fst sub)" and n: "k1 \<notin> fst ` set sub"
    by (auto simp: x)
  from n have "dict_get sub k1 = None"
    by (simp add: dict_get_def map_of_eq_None_iff)
  with Cons.IH [OF d, of "dict_set d0 k1 v1"] show ?case
    by (auto simp: x dict_get_set dict_get_Cons split: option.splits)
qed

lemma parse_options_keys:
  "parse_options opts ts ns ex = Inr sub \<Longrightarrow> opt_dest ` set opts \<subseteq> fst ` set ns \<Longrightarrow>
     map fst sub = map fst ns"
proof (induction opts ts ns ex rule: parse_options.induct)
  case (1 opts ns extras)
  then show ?case by (simp split: if_splits)
next
  case (2 opts t ts ns extras)
  show ?case
  proof (cases "classify opts t")
    case Positional
    with 2 show ?thesis by simp
  next
    case HelpOpt
    with 2 show ?thesis by simp
  next
    case (KnownOpt opt)
    from classify_known [OF KnownOpt] "2.prems"(2) have dest: "opt_dest opt \<in> fst ` set ns"
      by auto
    from "2.prems"(1) KnownOpt obtain v ts' where ts: "ts = v # ts'"
      and pv: "classify opts v = Positional"
      and rec: "parse_options opts ts'
                  (dict_set ns (opt_dest opt) (convert (opt_type opt) v)) extras = Inr sub"
      by (auto split: list.splits token_class.splits)
    from dest have keys: "fst ` set (dict_set ns (opt_dest opt) (convert (opt_type opt) v))
                            = fst ` set ns"
      by (simp add: set_keys_dict_set insert_absorb)
    have "map fst sub = map fst (dict_set ns (opt_dest opt) (convert (opt_type opt) v))"
      using "2.IH"(2) [OF KnownOpt ts pv rec] "2.prems"(2)
      by (simp only: keys)
    with dest show ?thesis by (simp add: keys_dict_set)
  next
    case UnknownOpt
    with 2 show ?thesis by simp
  next
    case Unsupported
    with 2 show ?thesis by simp
  qed
qed


lemma parse_options_str:
  "parse_options opts ts ns ex = Inr sub \<Longrightarrow>
     (\<forall>opt\<in>set opts. opt_dest opt = k \<longrightarrow> opt_type opt = TStr) \<Longrightarrow>
     (\<exists>s. dict_get ns k = Some (PStr s)) \<Longrightarrow> (\<exists>s. dict_get sub k = Some (PStr s))"
proof (induction opts ts ns ex rule: parse_options.induct)
  case (1 opts ns extras)
  then show ?case by (simp split: if_splits)
next
  case (2 opts t ts ns extras)
  show ?case
  proof (cases "classify opts t")
    case (KnownOpt opt)
    from "2.prems"(1) KnownOpt obtain v ts' where ts: "ts = v # ts'"
      and pv: "classify opts v = Positional"
      and rec: "parse_options opts ts'
                  (dict_set ns (opt_dest opt) (convert (opt_type opt) v)) extras = Inr sub"
      by (auto split: list.splits token_class.splits)
    from classify_known [OF KnownOpt] "2.prems"(2,3)
    have "\<exists>s. dict_get (dict_set ns (opt_dest opt) (convert (opt_type opt) v)) k = Some (PStr s)"
      by (auto simp: dict_get_set)
    from "2.IH"(2) [OF KnownOpt ts pv rec "2.prems"(2) this] show ?thesis .
  qed (use 2 in simp_all)
qed

lemma parse_options_untouched:
  "parse_options opts ts ns ex = Inr sub \<Longrightarrow>
     (\<forall>opt\<in>set opts. opt_dest opt = k \<longrightarrow> opt_short opt \<notin> set ts \<and> opt_long opt \<notin> set ts) \<Longrightarrow>
     dict_get sub k = dict_get ns k"
proof (induction opts ts ns ex rule: parse_options.induct)
  case (1 opts ns extras)
  then show ?case by (simp split: if_splits)
next
  case (2 opts t ts ns extras)
  show ?case
  proof (cases "classify opts t")
    case (KnownOpt opt)
    from "2.prems"(1) KnownOpt obtain v ts' where ts: "ts = v # ts'"
      and pv: "classify opts v = Positional"
      and rec: "parse_options opts ts'
                  (dict_set ns (opt_dest opt) (convert (opt_type opt) v)) extras = Inr sub"
      by (auto split: list.splits token_class.splits)
    from classify_known [OF KnownOpt] "2.prems"(2) have ne: "opt_dest opt \<noteq> k"
      by auto
    from "2.prems"(2) ts
    have "\<forall>opt\<in>set opts. opt_dest opt = k \<longrightarrow>
            opt_short opt \<notin> set ts' \<and> opt_long opt \<notin> set ts'"
      by auto
    from "2.IH"(2) [OF KnownOpt ts pv rec this] ne show ?thesis
      by (simp add: dict_get_set)
  qed (use 2 in simp_all)
qed

lemma subparser_dests:
  "subparser t = Some opts \<Longrightarrow>
     ''vector_database'' \<notin> opt_dest ` set opts \<and> distinct (map opt_dest opts) \<and>
     t \<in> {''pinecone'', ''weaviate'', ''qdrant''}"
  by (auto simp: subparser_def pinecone_options_def weaviate_options_def qdrant_options_def
      split: if_splits)

lemma parse_subcommand_Inr:
  assumes "parse_subcommand t ts ns = Inr args"
  obtains opts sub where "subparser t = Some opts"
    and "parse_options opts ts (defaults opts) False = Inr sub"
    and "args = fold (\<lambda>(k, v) d. dict_set d k v) sub
                  (dict_set ns ''vector_database'' (PStr t))"
    and "map fst sub = map opt_dest opts"
proof -
  from assms obtain opts sub where a: "subparser t = Some opts"
    and b: "parse_options opts ts (defaults opts) False = Inr sub"
    and c: "args = fold (\<lambda>(k, v) d. dict_set d k v) sub
                  (dict_set ns ''vector_database'' (PStr t))"
    by (auto simp: parse_subcommand_def split: option.splits if_splits sum.splits)
  have "opt_dest ` set opts \<subseteq> fst ` set (defaults opts)"
    by (force simp: defaults_def)
  from parse_options_keys [OF b this] have "map fst sub = map opt_dest opts"
    by (simp add: defaults_def comp_def)
  with a b c that show ?thesis by blast
qed

lemma parse_subcommand_vector_database:
  assumes "parse_subcommand t ts ns = Inr args"
  shows "dict_get args ''vector_database'' = Some (PStr t)"
    and "t \<in> {''pinecone'', ''weaviate'', ''qdrant''}"
proof -
  from assms obtain opts sub where a: "subparser t = Some opts"
    and c: "args = fold (\<lambda>(k, v) d. dict_set d k v) sub
                  (dict_set ns ''vector_database'' (PStr t))"
    and k: "map fst sub = map opt_dest opts"
    by (rule parse_subcommand_Inr)
  from subparser_dests [OF a] k have d: "distinct (map fst sub)"
    and n: "''vector_database'' \<notin> fst ` set sub"
    by (auto simp flip: set_map)
  from n have "dict_get sub ''vector_database'' = None"
    by (simp add: dict_get_def map_of_eq_None_iff)
  with dict_get_fold_set [OF d] show "dict_get args ''vector_database'' = Some (PStr t)"
    by (simp add: c dict_get_set)
  from subparser_dests [OF a] show "t \<in> {''pinecone'', ''weaviate'', ''qdrant''}"
    by simp
qed

lemma parse_subcommand_pinecone_index:
  assumes "parse_subcommand ''pinecone'' ts ns = Inr args"
  shows "\<exists>s. dict_get args ''index'' = Some (PStr s) \<and>
           (''-i'' \<notin> set ts \<and> ''--index'' \<notin> set ts \<longrightarrow> s = ''all'')"
proof -
  from assms obtain opts sub where a: "subparser ''pinecone'' = Some opts"
    and b: "parse_options opts ts (defaults opts) False = Inr sub"
    and c: "args = fold (\<lambda>(k, v) d. dict_set d k v) sub
                  (dict_set ns ''vector_database'' (PStr ''pinecone''))"
    and k: "map fst sub = map opt_dest opts"
    by (rule parse_subcommand_Inr)
  from a have opts: "opts = pinecone_options" by (simp add: subparser_def)
  from subparser_dests [OF a] k have d: "distinct (map fst sub)"
    by simp
  have d0: "dict_get (defaults opts) ''index'' = Some (PStr ''all'')"
    by (simp add: opts defaults_def pinecone_options_def dict_get_def)
  have "\<exists>s. dict_get sub ''index'' = Some (PStr s)"
    by (rule parse_options_str [OF b])
       (simp_all add: d0, simp add: opts pinecone_options_def)
  then obtain s where s: "dict_get sub ''index'' = Some (PStr s)" ..
  have "s = ''all''" if "''-i'' \<notin> set ts \<and> ''--index'' \<notin> set ts"
  proof -
    have "dict_get sub ''index'' = dict_get (defaults opts) ''index''"
      by (rule parse_options_untouched [OF b]) (use that in \<open>simp add: opts pinecone_options_def\<close>)
    with s d0 show ?thesis by simp
  qed
  moreover from dict_get_fold_set [OF d] s have "dict_get args ''index'' = Some (PStr s)"
    by (simp add: c)
  ultimately show ?thesis by blast
qed

lemma parse_top_subcommand:
  "parse_top ws ns ex = Inr args \<Longrightarrow>
     dict_get args ''vector_database'' \<noteq> dict_get ns ''vector_database'' \<Longrightarrow>
     \<exists>t ts ns'. set ts \<subseteq> set ws \<and> parse_subcommand t ts ns' = Inr args"
proof (induction ws ns ex rule: parse_top.induct)
  case (1 ns extras)
  then show ?case by (simp split: if_splits)
next
  case (2 t ts ns extras)
  show ?case
  proof (cases "classify top_options t")
    case Positional
    with "2.prems"(1) have "parse_subcommand t ts ns = Inr args"
      by (auto split: sum.splits if_splits)
    then show ?thesis by auto
  next
    case (KnownOpt opt)
    from "2.prems"(1) KnownOpt obtain v ts' where ts: "ts = v # ts'"
      and pv: "classify top_options v = Positional"
      and rec: "parse_top ts'
                  (dict_set ns (opt_dest opt) (convert (opt_type opt) v)) extras = Inr args"
      by (auto split: list.splits token_class.splits)
    from classify_known [OF KnownOpt] have "opt_dest opt \<noteq> ''vector_database''"
      by (auto simp: top_options_def)
    with "2.prems"(2)
    have "dict_get args ''vector_database'' \<noteq>
            dict_get (dict_set ns (opt_dest opt) (convert (opt_type opt) v)) ''vector_database''"
      by (simp add: dict_get_set)
    from "2.IH"(1) [OF KnownOpt ts pv rec this] ts show ?thesis by auto
  next
    case UnknownOpt
    with "2.prems" have "parse_top ts ns True = Inr args" by simp
    from "2.IH"(2) [OF UnknownOpt this "2.prems"(2)] show ?thesis by auto
  qed (use 2 in simp_all)
qed

lemma parse_args_pinecone_index:
  assumes "parse_args ws = Inr args"
    and "dict_get args ''vector_database'' = Some (PStr ''pinecone'')"
  shows "\<exists>s. dict_get args ''index'' = Some (PStr s) \<and>
           (''-i'' \<notin> set ws \<and> ''--index'' \<notin> set ws \<longrightarrow> s = ''all'')"
proof -
  let ?ns = "defaults top_options @ [(''vector_database'', PNone)]"
  from assms(1) have top: "parse_top ws ?ns False = Inr args"
    by (simp add: parse_args_def split: if_splits)
  have "dict_get ?ns ''vector_database'' = Some PNone"
    by (simp add: defaults_def top_options_def dict_get_def)
  with assms(2) have "dict_get args ''vector_database'' \<noteq> dict_get ?ns ''vector_database''"
    by simp
  from parse_top_subcommand [OF top this] obtain t ts ns' where
    sub: "set ts \<subseteq> set ws" and p: "parse_subcommand t ts ns' = Inr args"
    by blast
  from parse_subcommand_vector_database(1) [OF p] assms(2) have "t = ''pinecone''"
    by simp
  with p have "parse_subcommand ''pinecone'' ts ns' = Inr args" by simp
  from parse_subcommand_pinecone_index [OF this] sub show ?thesis
    by blast
qed

lemma never_emitsD:
  "never_emits e m \<Longrightarrow> m w = (r, w') \<Longrightarrow> \<exists>es. steps w es w' \<and> e \<notin> set es"
  by (auto simp: never_emits_def)

lemma never_emits_bind:
  assumes "never_emits e m" and "\<And>x. never_emits e (f x)"
  shows "never_emits e (io_bind m f)"
  unfolding never_emits_def
proof (intro allI impI)
  fix w r w'
  assume "io_bind m f w = (r, w')"
  then show "\<exists>es. steps w es w' \<and> e \<notin> set es"
  proof (cases rule: io_bind_cases)
    case (fail e')
    with assms(1) show ?thesis by (auto dest: never_emitsD)
  next
    case (ok x w1)
    from never_emitsD [OF assms(1) ok(1)] obtain es1 where
      "steps w es1 w1" "e \<notin> set es1" by blast
    moreover from never_emitsD [OF assms(2) ok(2)] obtain es2 where
      "steps w1 es2 w'" "e \<notin> set es2" by blast
    ultimately have "steps w (es1 @ es2) w' \<and> e \<notin> set (es1 @ es2)"
      by (auto intro: steps_trans)
    then show ?thesis ..
  qed
qed

lemma never_emits_if:
  "never_emits e m \<Longrightarrow> never_emits e m' \<Longrightarrow> never_emits e (if c then m else m')"
  by simp

lemma never_emitsI:
  "(\<And>w r w'. m w = (r, w') \<Longrightarrow> \<exists>es. steps w es w' \<and> e \<notin> set es) \<Longrightarrow> never_emits e m"
  by (simp add: never_emits_def)

lemma never_emits_one:
  assumes "\<And>w r w'. m w = (r, w') \<Longrightarrow> steps w [] w' \<or> steps w [x] w'" and "e \<noteq> x"
  shows "never_emits e m"
proof (rule never_emitsI)
  fix w r w'
  assume "m w = (r, w')"
  from assms(1) [OF this] show "\<exists>es. steps w es w' \<and> e \<notin> set es"
  proof
    assume "steps w [] w'"
    then have "steps w [] w' \<and> e \<notin> set []" by simp
    then show ?thesis ..
  next
    assume "steps w [x] w'"
    with assms(2) have "steps w [x] w' \<and> e \<notin> set [x]" by simp
    then show ?thesis ..
  qed
qed

lemma never_emits_return: "never_emits e (io_return x)"
  by (rule never_emitsI) (auto simp: io_return_def intro: exI [of _ "[]"] steps_refl)

lemma never_emits_dict_index: "never_emits e (dict_index d k)"
  by (rule never_emitsI)
     (auto simp: dict_index_def split: option.splits intro: exI [of _ "[]"] steps_refl)

lemma never_emits_print_args: "e \<noteq> PrintArgs d \<Longrightarrow> never_emits e (print_args d)"
  by (rule never_emits_one [where x = "PrintArgs d"]) (auto simp: print_args_def steps_emit)

lemma never_emits_construct: "e \<noteq> Construct b d \<Longrightarrow> never_emits e (construct b d)"
  by (rule never_emits_one [where x = "Construct b d"])
     (auto simp: construct_def steps_emit split: if_splits)

lemma never_emits_get_all_index_names:
  "e \<noteq> ListNames Pinecone \<Longrightarrow> never_emits e get_all_index_names"
  by (rule never_emits_one [where x = "ListNames Pinecone"])
     (auto simp: get_all_index_names_def get_all_names_def steps_emit split: option.splits)

lemma never_emits_get_data:
  "e \<noteq> GetData b (n # ex) \<Longrightarrow> never_emits e (get_data b n ex)"
  by (rule never_emits_one [where x = "GetData b (n # ex)"])
     (auto simp: get_data_def steps_emit split: if_splits)

lemma never_emits_set_arg_from_input:
  assumes "e \<noteq> Prompt p"
  shows "never_emits e (set_arg_from_input a k p)"
proof (rule never_emits_one [where x = "Prompt p"])
  fix w r w'
  assume run: "set_arg_from_input a k p w = (r, w')"
  show "steps w [] w' \<or> steps w [Prompt p] w'"
  proof (cases r)
    case (Inl err)
    with run set_arg_from_input_Inl show ?thesis by blast
  next
    case (Inr a')
    with run set_arg_from_input_Inr(1) [of a k p w a' w'] show ?thesis
      by (auto split: if_splits)
  qed
qed (rule assms)

lemma never_emits_set_arg_from_password:
  assumes "e \<noteq> GetpassPrompt p"
  shows "never_emits e (set_arg_from_password a k p v)"
proof (rule never_emits_one [where x = "GetpassPrompt p"])
  fix w r w'
  assume run: "set_arg_from_password a k p v w = (r, w')"
  show "steps w [] w' \<or> steps w [GetpassPrompt p] w'"
  proof (cases r)
    case (Inl err)
    with run set_arg_from_password_Inl show ?thesis by blast
  next
    case (Inr a')
    with run set_arg_from_password_Inr(1) [of a k p v w a' w'] show ?thesis
      by (auto split: if_splits)
  qed
qed (rule assms)

lemmas never_emits_prims =
  never_emits_return never_emits_dict_index never_emits_print_args never_emits_construct
  never_emits_get_all_index_names never_emits_get_data never_emits_set_arg_from_input
  never_emits_set_arg_from_password

lemma never_emits_for_each:
  assumes "\<And>x. never_emits e (body x)"
  shows "never_emits e (for_each xs body)"
  unfolding never_emits_def
proof (intro allI impI)
  fix w r w'
  show "for_each xs body w = (r, w') \<Longrightarrow> \<exists>es. steps w es w' \<and> e \<notin> set es"
  proof (induction xs arbitrary: w)
    case Nil
    then have "steps w [] w' \<and> e \<notin> set []" by (auto intro: steps_refl)
    then show ?case ..
  next
    case (Cons x xs)
    show ?case
    proof (cases "body x w")
      case (Pair rx w1)
      from never_emitsD [OF assms Pair] obtain es1 where
        s1: "steps w es1 w1" "e \<notin> set es1" by blast
      show ?thesis
      proof (cases rx)
        case (Inl err)
        with Cons.prems Pair s1 show ?thesis by auto
      next
        case (Inr u)
        with Cons.prems Pair have "for_each xs body w1 = (r, w')" by simp
        from Cons.IH [OF this] obtain es2 where "steps w1 es2 w'" "e \<notin> set es2" by blast
        with s1 have "steps w (es1 @ es2) w' \<and> e \<notin> set (es1 @ es2)"
          by (auto intro: steps_trans)
        then show ?thesis ..
      qed
    qed
  qed
qed

lemma index_prompt_neq:
  "index_prompt \<noteq> ''Enter the environment of Pinecone instance: ''"
  "index_prompt \<noteq> ''Enter the name of model used:''"
  by (simp_all add: index_prompt_def)

lemma pinecone_rest_no_index_prompt: "never_emits (Prompt index_prompt)
     (io_bind (set_arg_from_input args2 ''model_name'' ''Enter the name of model used:'') (\<lambda>args3.
     io_bind (set_arg_from_password args3 ''pinecone_api_key''
                ''Enter your Pinecone API key: '' ''PINECONE_API_KEY'') (\<lambda>args.
     io_bind (print_args args) (\<lambda>_.
     io_bind (construct Pinecone args) (\<lambda>_.
     io_bind (dict_index args ''index'') (\<lambda>index.
       if index = PStr ''all'' then
         io_bind get_all_index_names (\<lambda>index_names.
         io_bind (for_each index_names (\<lambda>index_name. get_data Pinecone (PStr index_name) []))
           (\<lambda>_. io_return args))
       else
         io_bind (dict_index args ''index'') (\<lambda>index.
         io_bind (get_data Pinecone index []) (\<lambda>_. io_return args))))))))"
  apply (intro never_emits_bind never_emits_if never_emits_prims never_emits_for_each)
  apply (simp_all add: index_prompt_neq)
  done


lemma export_pinecone_no_index_prompt:
  assumes run: "export_pinecone a w = (r, w')" and idx: "\<not> unset a ''index''"
  shows "Prompt index_prompt \<notin> set (emitted w w')"
  using run unfolding export_pinecone_def
proof (cases rule: io_bind_cases)
  case (fail e)
  from set_arg_from_input_Inl [OF fail(1)]
  have "steps w [Prompt ''Enter the environment of Pinecone instance: ''] w'"
    by simp
  from steps_emitted [OF this] show ?thesis
    by (simp add: index_prompt_neq)
next
  case (ok a1 w1)
  note s1 = set_arg_from_input_Inr(1) [OF ok(1)]
  from set_arg_from_input_Inr(4) [OF ok(1), of "''index''"] idx
  have idx1: "\<not> unset a1 ''index''" by (simp add: unset_def)
  from ok(2) show ?thesis
  proof (cases rule: io_bind_cases)
    case (fail e)
    from set_arg_from_input_Inl [OF fail(1)] idx1 show ?thesis by simp
  next
    case (ok a2 w2)
    from set_arg_from_input_Inr(1) [OF ok(1)] idx1 have s2: "steps w1 [] w2" by simp
    from pinecone_rest_no_index_prompt [of a2, unfolded never_emits_def] ok(2)
    obtain es where s3: "steps w2 es w'" and ne: "Prompt index_prompt \<notin> set es"
      by blast
    from steps_emitted [OF steps_trans [OF steps_trans [OF s1 s2] s3]]
    have "emitted w w' =
            (if unset a ''environment''
             then [Prompt ''Enter the environment of Pinecone instance: ''] else []) @ es"
      by simp
    with ne show ?thesis by (simp add: index_prompt_neq)
  qed
qed

lemma parse_top_extras: "ex \<Longrightarrow> parse_top ws ns ex \<noteq> Inr args"
proof (induction ws ns ex rule: parse_top.induct)
  case (1 ns extras)
  then show ?case by simp
next
  case (2 t ts ns extras)
  show ?case
  proof (cases "classify top_options t")
    case Positional
    with "2.prems" show ?thesis by (simp split: sum.splits)
  next
    case (KnownOpt opt)
    show ?thesis
    proof (cases ts)
      case Nil
      with KnownOpt show ?thesis by simp
    next
      case (Cons v ts')
      show ?thesis
      proof (cases "classify top_options v = Positional")
        case True
        from "2.IH"(1) [OF KnownOpt Cons True "2.prems"] KnownOpt Cons True
        show ?thesis by simp
      next
        case False
        with KnownOpt Cons show ?thesis by (simp split: token_class.splits)
      qed
    qed
  next
    case UnknownOpt
    from "2.IH"(2) [OF UnknownOpt] UnknownOpt show ?thesis by simp
  qed simp_all
qed

lemma parse_top_append:
  "parse_top ws ns ex = Inr args \<Longrightarrow>
     dict_get ns ''vector_database'' = Some PNone \<Longrightarrow>
     dict_get args ''vector_database'' = Some PNone \<Longrightarrow>
     parse_top (ws @ xs) ns ex = parse_top xs args False"
proof (induction ws ns ex rule: parse_top.induct)
  case (1 ns extras)
  then show ?case by (simp split: if_splits)
next
  case (2 t ts ns extras)
  show ?case
  proof (cases "classify top_options t")
    case Positional
    with "2.prems"(1) have "parse_subcommand t ts ns = Inr args"
      by (auto split: sum.splits if_splits)
    from parse_subcommand_vector_database(1) [OF this] "2.prems"(3)
    show ?thesis by simp
  next
    case (KnownOpt opt)
    from "2.prems"(1) KnownOpt obtain v ts' where ts: "ts = v # ts'"
      and pv: "classify top_options v = Positional"
      and rec: "parse_top ts'
                  (dict_set ns (opt_dest opt) (convert (opt_type opt) v)) extras = Inr args"
      by (auto split: list.splits token_class.splits)
    from classify_known [OF KnownOpt] have "opt_dest opt \<noteq> ''vector_database''"
      by (auto simp: top_options_def)
    with "2.prems"(2)
    have "dict_get (dict_set ns (opt_dest opt) (convert (opt_type opt) v)) ''vector_database''
            = Some PNone"
      by (simp add: dict_get_set)
    from "2.IH"(1) [OF KnownOpt ts pv rec this "2.prems"(3)] KnownOpt ts pv
    show ?thesis by simp
  next
    case UnknownOpt
    with "2.prems"(1) have "parse_top ts ns True = Inr args" by simp
    with parse_top_extras [of True ts ns args] show ?thesis by simp
  qed (use 2 in simp_all)
qed

lemma parse_args_vector_database:
  assumes "parse_args ws = Inr args"
  shows "dict_get args ''vector_database'' = Some PNone \<or>
         dict_get args ''vector_database'' \<in>
           {Some (PStr ''pinecone''), Some (PStr ''weaviate''), Some (PStr ''qdrant'')}"
proof (cases "dict_get args ''vector_database'' = Some PNone")
  case True
  then show ?thesis ..
next
  case False
  let ?ns = "defaults top_options @ [(''vector_database'', PNone)]"
  from assms have top: "parse_top ws ?ns False = Inr args"
    by (simp add: parse_args_def split: if_splits)
  have "dict_get ?ns ''vector_database'' = Some PNone"
    by (simp add: defaults_def top_options_def dict_get_def)
  with False have "dict_get args ''vector_database'' \<noteq> dict_get ?ns ''vector_database''"
    by simp
  from parse_top_subcommand [OF top this] obtain t ts ns' where
    "parse_subcommand t ts ns' = Inr args" by blast
  from parse_subcommand_vector_database [OF this] show ?thesis by auto
qed

text \<open>
  After \<open>main\<close> has appended \<open>--vector_database\<close> and a name to a command line without
  subcommand, \<open>parse_args\<close> fails on it, whatever the name is.
\<close>

lemma parse_args_retry_fails:
  assumes "parse_args ws = Inr args"
    and "dict_get args ''vector_database'' = Some PNone"
  shows "\<exists>e. parse_args (ws @ [''--vector_database'', name]) = Inl e"
proof (cases "list_ex (\<lambda>t. classify top_options t = Unsupported)
                (ws @ [''--vector_database'', name])")
  case True
  then show ?thesis by (simp add: parse_args_def)
next
  case False
  let ?ns = "defaults top_options @ [(''vector_database'', PNone)]"
  from assms(1) have top: "parse_top ws ?ns False = Inr args"
    by (simp add: parse_args_def split: if_splits)
  have ns: "dict_get ?ns ''vector_database'' = Some PNone"
    by (simp add: defaults_def top_options_def dict_get_def)
  have unknown: "classify top_options ''--vector_database'' = UnknownOpt"
    by (simp add: classify_def top_options_def unsupported_form_def is_prefix_def)
  from False have "parse_args (ws @ [''--vector_database'', name])
                     = parse_top (ws @ [''--vector_database'', name]) ?ns False"
    by (simp add: parse_args_def)
  also from parse_top_append [OF top ns assms(2)]
  have "\<dots> = parse_top [''--vector_database'', name] args False" .
  also from unknown have "\<dots> = parse_top [name] args True" by simp
  finally have "parse_args (ws @ [''--vector_database'', name]) = parse_top [name] args True" .
  with parse_top_extras [of True "[name]" args] show ?thesis
    by (cases "parse_top [name] args True") auto
qed

text \<open>
  Every run of \<open>main\<close> that reaches the branch for an unknown backend ends with an
  exception and makes no call on any adapter.
\<close>

lemma main_retry_never_exports:
  assumes parsed: "parse_args (argv w) = Inr args"
    and other: "dict_get args ''vector_database'' \<notin>
           {Some (PStr ''pinecone''), Some (PStr ''weaviate''), Some (PStr ''qdrant'')}"
    and run: "main w = (r, w')"
  shows "(\<exists>e. r = Inl e) \<and> calls (emitted w w') = []"
proof -
  from parse_args_vector_database [OF parsed] other
  have none: "dict_get args ''vector_database'' = Some PNone" by blast
  show ?thesis
  proof (cases "stdin w")
    case Nil
    with run parsed none show ?thesis
      by (subst (asm) main.simps)
         (auto simp: input_def emit_def emitted_def calls_def)
  next
    case (Cons name rest)
    let ?w2 = "(emit (Prompt ''Enter the name of vector database to export: '')
                 (emit (PrintStr ''Invalid vector database'') w))
               \<lparr>stdin := rest, argv := argv w @ [''--vector_database'', name]\<rparr>"
    from parse_args_retry_fails [OF parsed none, of name] obtain e where
      e: "parse_args (argv w @ [''--vector_database'', name]) = Inl e" ..
    have inner: "main ?w2 = (Inl e, if (\<exists>c. e = SystemExit c)
                   then emit (if e = SystemExit 0 then ArgparseHelp else ArgparseUsageError) ?w2
                   else ?w2)"
      by (subst main.simps) (auto simp: e emit_def split: error.splits)
    from run parsed none Cons have "main w = (case main ?w2 of
                  (Inl e, w') \<Rightarrow> (Inl e, w')
                | (Inr _, w') \<Rightarrow> (Inr (), emit (PrintStr ''Export completed.'') w'))"
      by (subst main.simps) (simp add: input_def emit_def)
    with run inner show ?thesis
      by (auto simp: emit_def emitted_def calls_def)
  qed
qed


text \<open>
  A boolean under \<open>include_crossrefs\<close>, which is what \<open>type=bool\<close> stores for any value
  given on the command line, is never equal to the string \<open>Y\<close>: \<open>get_data\<close> then
  receives \<open>False\<close>.
\<close>

lemma export_weaviate_flag_gives_False:
  assumes "export_weaviate a w = (Inr a', w')"
    and "dict_get a ''include_crossrefs'' = Some (PBool x)"
  shows "dict_get a' ''include_crossrefs'' = Some (PBool False)"
  using export_weaviate_calls [OF assms(1)] assms(2) by auto

text \<open>
  A successful run of \<open>export_pinecone\<close> leaves an index that was already set as it
  is.
\<close>

lemma export_pinecone_keeps_index:
  assumes run: "export_pinecone a w = (Inr a', w')" and idx: "\<not> unset a ''index''"
  shows "dict_get a' ''index'' = dict_get a ''index''"
proof -
  from run obtain a1 w1 a2 w2 b3 v3 where
    s1: "set_arg_from_input a ''environment''
           ''Enter the environment of Pinecone instance: '' w = (Inr a1, w1)" and
    s2: "set_arg_from_input a1 ''index'' index_prompt w1 = (Inr a2, w2)" and
    s3: "set_arg_from_input a2 ''model_name'' ''Enter the name of model used:'' w2
           = (Inr b3, v3)" and
    t4: "\<exists>b4 v4. set_arg_from_password b3 ''pinecone_api_key''
           ''Enter your Pinecone API key: '' ''PINECONE_API_KEY'' v3 = (Inr b4, v4) \<and>
           (\<exists>u v5. print_args b4 v4 = (Inr u, v5) \<and>
              (\<exists>u' v6. construct Pinecone b4 v5 = (Inr u', v6) \<and>
                 (\<exists>index v7. dict_index b4 ''index'' v6 = (Inr index, v7) \<and>
                    dict_get a' ''index'' = dict_get b4 ''index'')))"
    unfolding export_pinecone_def
    by (elim io_bind_Inr)
       (auto elim!: io_bind_Inr simp: io_return_def split: if_splits)
  from t4 obtain b4 v4 where
    t: "set_arg_from_password b3 ''pinecone_api_key''
           ''Enter your Pinecone API key: '' ''PINECONE_API_KEY'' v3 = (Inr b4, v4)" and
    fin: "dict_get a' ''index'' = dict_get b4 ''index''"
    by blast
  from set_arg_from_input_Inr(4) [OF s1, of "''index''"]
  have i1: "dict_get a1 ''index'' = dict_get a ''index''" by simp
  with idx have "\<not> unset a1 ''index''" by (simp add: unset_def)
  from set_arg_from_input_Inr(5) [OF s2 this] have i2: "a2 = a1" .
  from set_arg_from_input_Inr(4) [OF s3, of "''index''"]
  have i3: "dict_get b3 ''index'' = dict_get a2 ''index''" by simp
  from set_arg_from_password_Inr(3) [OF t, of "''index''"]
  have i4: "dict_get b4 ''index'' = dict_get b3 ''index''" by simp
  from fin i1 i2 i3 i4 show ?thesis by simp
qed

section \<open>Claims about the argument helpers\<close>

text \<open>
  C6: \<open>set_arg_from_input\<close> leaves the dictionary and the world as they are, without a
  prompt, when the argument already has a value other than \<open>None\<close>; when the argument is
  absent or \<open>None\<close> it shows the prompt, and only that, and stores the line read under
  the argument's name.
\<close>

theorem set_arg_from_input_frame:
  "(\<forall>v. dict_get args arg_name = Some v \<and> v \<noteq> PNone \<longrightarrow>
       set_arg_from_input args arg_name prompt w = (Inr args, w)) \<and>
   (dict_get args arg_name = None \<or> dict_get args arg_name = Some PNone \<longrightarrow>
       emitted w (snd (set_arg_from_input args arg_name prompt w)) = [Prompt prompt] \<and>
       (\<forall>l ls. stdin w = l # ls \<longrightarrow>
          fst (set_arg_from_input args arg_name prompt w)
            = Inr (dict_set args arg_name (PStr l))))"
  by (auto simp: set_arg_from_input_def input_def emitted_emit emitted_emit_stdin
      split: list.splits)

theorem set_arg_from_input_frame_witness:
  "set_arg_from_input [(''url'', PStr ''http://localhost:6333'')] ''url'' ''Enter: ''
      \<lparr>argv = [], environ = [], stdin = [''x''], tty = [],
       service = \<lparr>construct_raises = False, collection_names = Some [], get_data_raises = []\<rparr>,
       trace = []\<rparr>
    = (Inr [(''url'', PStr ''http://localhost:6333'')],
      \<lparr>argv = [], environ = [], stdin = [''x''], tty = [],
       service = \<lparr>construct_raises = False, collection_names = Some [], get_data_raises = []\<rparr>,
       trace = []\<rparr>)
   \<and> fst (set_arg_from_input [(''url'', PNone)] ''url'' ''Enter: ''
      \<lparr>argv = [], environ = [], stdin = [''x''], tty = [],
       service = \<lparr>construct_raises = False, collection_names = Some [], get_data_raises = []\<rparr>,
       trace = []\<rparr>) = Inr [(''url'', PStr ''x'')]"
  using set_arg_from_input_frame
          [of "[(''url'', PStr ''http://localhost:6333'')]" "''url''" "''Enter: ''"
              "\<lparr>argv = [], environ = [], stdin = [''x''], tty = [],
                service = \<lparr>construct_raises = False, collection_names = Some [],
                           get_data_raises = []\<rparr>, trace = []\<rparr>"]
        set_arg_from_input_frame
          [of "[(''url'', PNone)]" "''url''" "''Enter: ''"
              "\<lparr>argv = [], environ = [], stdin = [''x''], tty = [],
                service = \<lparr>construct_raises = False, collection_names = Some [],
                           get_data_raises = []\<rparr>, trace = []\<rparr>"]
  by (simp add: dict_get_def)

text \<open>
  C4: \<open>set_arg_from_password\<close> takes the value of the environment variable when it is
  set, without any prompt and without touching the world; the masked prompt is shown
  exactly when the variable is unset and the argument is absent or \<open>None\<close>, and then
  the line typed is stored.
\<close>

theorem set_arg_from_password_env_first:
  "(\<forall>v. getenv env_var_name w = Some v \<longrightarrow>
       set_arg_from_password args arg_name prompt env_var_name w
         = (Inr (dict_set args arg_name (PStr v)), w) \<and>
       dict_get (dict_set args arg_name (PStr v)) arg_name = Some (PStr v)) \<and>
   emitted w (snd (set_arg_from_password args arg_name prompt env_var_name w))
     = (if getenv env_var_name w = None \<and> unset args arg_name
        then [GetpassPrompt prompt] else []) \<and>
   (\<forall>l ls. getenv env_var_name w = None \<and> unset args arg_name \<and> tty w = l # ls \<longrightarrow>
       fst (set_arg_from_password args arg_name prompt env_var_name w)
         = Inr (dict_set args arg_name (PStr l)))"
  by (auto simp: set_arg_from_password_def getpass_def unset_def dict_get_set
        emitted_self emitted_emit emitted_emit_tty
      split: option.splits list.splits)

theorem set_arg_from_password_env_first_witness:
  "set_arg_from_password [] ''pinecone_api_key'' ''Enter your Pinecone API key: ''
     ''PINECONE_API_KEY''
     \<lparr>argv = [], environ = [(''PINECONE_API_KEY'', ''from-env'')],
       stdin = [], tty = [''typed''],
       service = \<lparr>construct_raises = False, collection_names = Some [''a'', ''b''],
                  get_data_raises = []\<rparr>,
       trace = []\<rparr>
   = (Inr [(''pinecone_api_key'', PStr ''from-env'')],
      \<lparr>argv = [], environ = [(''PINECONE_API_KEY'', ''from-env'')],
       stdin = [], tty = [''typed''],
       service = \<lparr>construct_raises = False, collection_names = Some [''a'', ''b''],
                  get_data_raises = []\<rparr>,
       trace = []\<rparr>)
   \<and> fst (set_arg_from_password [] ''pinecone_api_key'' ''Enter your Pinecone API key: ''
     ''PINECONE_API_KEY''
     \<lparr>argv = [], environ = [],
       stdin = [], tty = [''typed''],
       service = \<lparr>construct_raises = False, collection_names = Some [''a'', ''b''],
                  get_data_raises = []\<rparr>,
       trace = []\<rparr>)
     = Inr [(''pinecone_api_key'', PStr ''typed'')]"
  using set_arg_from_password_env_first
    [of "''PINECONE_API_KEY''"
        "\<lparr>argv = [], environ = [(''PINECONE_API_KEY'', ''from-env'')],
          stdin = [], tty = [''typed''],
          service = \<lparr>construct_raises = False, collection_names = Some [''a'', ''b''],
                     get_data_raises = []\<rparr>,
          trace = []\<rparr>"
        "[]" "''pinecone_api_key''" "''Enter your Pinecone API key: ''"]
    set_arg_from_password_env_first
    [of "''PINECONE_API_KEY''"
        "\<lparr>argv = [], environ = [],
          stdin = [], tty = [''typed''],
          service = \<lparr>construct_raises = False, collection_names = Some [''a'', ''b''],
                     get_data_raises = []\<rparr>,
          trace = []\<rparr>"
        "[]" "''pinecone_api_key''" "''Enter your Pinecone API key: ''"]
  by (simp add: getenv_def unset_def dict_get_def)

text \<open>
  C9: when the environment variable is set, \<open>set_arg_from_password\<close> stores its value
  even over a value other than \<open>None\<close> that \<open>args\<close> already holds; the other keys keep
  their values.
\<close>

theorem set_arg_from_password_env_overrides:
  assumes "getenv env_var_name w = Some v"
    and "dict_get args arg_name = Some x" and "x \<noteq> PNone"
  shows "\<exists>args'. set_arg_from_password args arg_name prompt env_var_name w = (Inr args', w) \<and>
           dict_get args' arg_name = Some (PStr v) \<and>
           (\<forall>k. k \<noteq> arg_name \<longrightarrow> dict_get args' k = dict_get args k)"
  using assms by (simp add: set_arg_from_password_def dict_get_set)

theorem set_arg_from_password_env_overrides_witness:
  "set_arg_from_password [(''pinecone_api_key'', PStr ''given'')] ''pinecone_api_key''
     ''Enter your Pinecone API key: '' ''PINECONE_API_KEY''
     \<lparr>argv = [], environ = [(''PINECONE_API_KEY'', ''from-env'')],
       stdin = [], tty = [''typed''],
       service = \<lparr>construct_raises = False, collection_names = Some [''a'', ''b''],
                  get_data_raises = []\<rparr>,
       trace = []\<rparr>
   = (Inr [(''pinecone_api_key'', PStr ''from-env'')],
      \<lparr>argv = [], environ = [(''PINECONE_API_KEY'', ''from-env'')],
       stdin = [], tty = [''typed''],
       service = \<lparr>construct_raises = False, collection_names = Some [''a'', ''b''],
                  get_data_raises = []\<rparr>,
       trace = []\<rparr>)"
  using set_arg_from_password_env_overrides
    [of "''PINECONE_API_KEY''"
        "\<lparr>argv = [], environ = [(''PINECONE_API_KEY'', ''from-env'')],
          stdin = [], tty = [''typed''],
          service = \<lparr>construct_raises = False, collection_names = Some [''a'', ''b''],
                     get_data_raises = []\<rparr>,
          trace = []\<rparr>"
        "''from-env''" "[(''pinecone_api_key'', PStr ''given'')]" "''pinecone_api_key''"
        "PStr ''given''" "''Enter your Pinecone API key: ''"]
  by (simp add: run_defs)

section \<open>Claims about the export functions\<close>





text \<open>
  C10: every run of \<open>export_pinecone\<close> that gets past the prompts (it does not end with
  \<open>EOFError\<close>) prints the whole \<open>args\<close> dictionary, and the dictionary printed holds
  the API key in clear: the value of \<open>PINECONE_API_KEY\<close> when that is set, otherwise the
  line typed at the masked prompt, otherwise the value \<open>args\<close> already had.  On a
  successful run the dictionary printed is the final dictionary.
\<close>

theorem export_pinecone_prints_api_key:
  assumes "export_pinecone a w = (r, w')" and "r \<noteq> Inl EOFError"
  shows "\<exists>printed. PrintArgs printed \<in> set (emitted w w') \<and>
           (\<forall>a'. r = Inr a' \<longrightarrow> a' = printed) \<and>
           (\<forall>k. getenv ''PINECONE_API_KEY'' w = Some k \<longrightarrow>
                dict_get printed ''pinecone_api_key'' = Some (PStr k)) \<and>
           (getenv ''PINECONE_API_KEY'' w = None \<and> unset a ''pinecone_api_key'' \<longrightarrow>
              (\<exists>l ls. tty w = l # ls \<and>
                 dict_get printed ''pinecone_api_key'' = Some (PStr l))) \<and>
           (getenv ''PINECONE_API_KEY'' w = None \<and> \<not> unset a ''pinecone_api_key'' \<longrightarrow>
              dict_get printed ''pinecone_api_key'' = dict_get a ''pinecone_api_key'')"
proof -
  from export_pinecone_prints [OF assms] obtain a3 w3 a4 w4 es rest where
    s4: "set_arg_from_password a3 ''pinecone_api_key''
           ''Enter your Pinecone API key: '' ''PINECONE_API_KEY'' w3 = (Inr a4, w4)" and
    pre: "steps w es w3" and tty3: "tty w3 = tty w" and
    key3: "dict_get a3 ''pinecone_api_key'' = dict_get a ''pinecone_api_key''" and
    res: "\<forall>a'. r = Inr a' \<longrightarrow> a' = a4" and
    em: "emitted w w' =
           es @ (if getenv ''PINECONE_API_KEY'' w = None \<and> unset a ''pinecone_api_key''
                 then [GetpassPrompt ''Enter your Pinecone API key: ''] else [])
              @ PrintArgs a4 # rest"
    by blast
  have env3: "getenv ''PINECONE_API_KEY'' w3 = getenv ''PINECONE_API_KEY'' w"
    using pre by (simp add: getenv_def steps_def)
  have un3: "unset a3 ''pinecone_api_key'' = unset a ''pinecone_api_key''"
    by (simp add: unset_def key3)
  have "PrintArgs a4 \<in> set (emitted w w')"
    by (simp add: em)
  moreover have "dict_get a4 ''pinecone_api_key'' = Some (PStr k)"
    if "getenv ''PINECONE_API_KEY'' w = Some k" for k
    using set_arg_from_password_Inr(4) [OF s4, of k] that by (simp add: env3)
  moreover have "\<exists>l ls. tty w = l # ls \<and> dict_get a4 ''pinecone_api_key'' = Some (PStr l)"
    if "getenv ''PINECONE_API_KEY'' w = None" and "unset a ''pinecone_api_key''"
    using set_arg_from_password_Inr(6) [OF s4] that
    by (auto simp: env3 un3 tty3 dict_get_set)
  moreover have "dict_get a4 ''pinecone_api_key'' = dict_get a ''pinecone_api_key''"
    if "getenv ''PINECONE_API_KEY'' w = None" and "\<not> unset a ''pinecone_api_key''"
    using set_arg_from_password_Inr(5) [OF s4] that by (simp add: env3 un3 key3)
  ultimately show ?thesis using res by (intro exI [of _ a4]) auto
qed

theorem export_pinecone_prints_api_key_witness:
  "export_pinecone [(''model_name'', PStr ''m''), (''environment'', PStr ''env''), (''index'', PStr ''docs'')]
    \<lparr>argv = [], environ = [(''PINECONE_API_KEY'', ''sk-secret'')],
      stdin = [], tty = [],
      service = \<lparr>construct_raises = False, collection_names = Some [''a'', ''b''],
                 get_data_raises = []\<rparr>,
      trace = []\<rparr>
   = (Inr [(''model_name'', PStr ''m''), (''environment'', PStr ''env''), (''index'', PStr ''docs''), (''pinecone_api_key'', PStr ''sk-secret'')],
     \<lparr>argv = [], environ = [(''PINECONE_API_KEY'', ''sk-secret'')],
       stdin = [], tty = [],
       service = \<lparr>construct_raises = False, collection_names = Some [''a'', ''b''],
                  get_data_raises = []\<rparr>,
       trace = [PrintArgs [(''model_name'', PStr ''m''), (''environment'', PStr ''env''), (''index'', PStr ''docs''), (''pinecone_api_key'', PStr ''sk-secret'')],
                Construct Pinecone [(''model_name'', PStr ''m''), (''environment'', PStr ''env''), (''index'', PStr ''docs''), (''pinecone_api_key'', PStr ''sk-secret'')],
                GetData Pinecone [PStr ''docs'']]\<rparr>)
   \<and> PrintArgs [(''model_name'', PStr ''m''), (''environment'', PStr ''env''), (''index'', PStr ''docs''), (''pinecone_api_key'', PStr ''sk-secret'')]
       \<in> set (emitted
    \<lparr>argv = [], environ = [(''PINECONE_API_KEY'', ''sk-secret'')],
      stdin = [], tty = [],
      service = \<lparr>construct_raises = False, collection_names = Some [''a'', ''b''],
                 get_data_raises = []\<rparr>,
      trace = []\<rparr>
    \<lparr>argv = [], environ = [(''PINECONE_API_KEY'', ''sk-secret'')],
      stdin = [], tty = [],
      service = \<lparr>construct_raises = False, collection_names = Some [''a'', ''b''],
                 get_data_raises = []\<rparr>,
      trace = [PrintArgs [(''model_name'', PStr ''m''), (''environment'', PStr ''env''), (''index'', PStr ''docs''), (''pinecone_api_key'', PStr ''sk-secret'')],
               Construct Pinecone [(''model_name'', PStr ''m''), (''environment'', PStr ''env''), (''index'', PStr ''docs''), (''pinecone_api_key'', PStr ''sk-secret'')],
               GetData Pinecone [PStr ''docs'']]\<rparr>)"
  using export_pinecone_prints_api_key
    [of "[(''model_name'', PStr ''m''), (''environment'', PStr ''env''), (''index'', PStr ''docs'')]"
        "\<lparr>argv = [], environ = [(''PINECONE_API_KEY'', ''sk-secret'')],
          stdin = [], tty = [],
          service = \<lparr>construct_raises = False, collection_names = Some [''a'', ''b''],
                     get_data_raises = []\<rparr>,
          trace = []\<rparr>"
        "Inr [(''model_name'', PStr ''m''), (''environment'', PStr ''env''), (''index'', PStr ''docs''), (''pinecone_api_key'', PStr ''sk-secret'')]"
        "\<lparr>argv = [], environ = [(''PINECONE_API_KEY'', ''sk-secret'')],
          stdin = [], tty = [],
          service = \<lparr>construct_raises = False, collection_names = Some [''a'', ''b''],
                     get_data_raises = []\<rparr>,
          trace = [PrintArgs [(''model_name'', PStr ''m''), (''environment'', PStr ''env''), (''index'', PStr ''docs''), (''pinecone_api_key'', PStr ''sk-secret'')],
                   Construct Pinecone [(''model_name'', PStr ''m''), (''environment'', PStr ''env''), (''index'', PStr ''docs''), (''pinecone_api_key'', PStr ''sk-secret'')],
                   GetData Pinecone [PStr ''docs'']]\<rparr>"]
  by (simp add: run_defs)

section \<open>Claims about main\<close>

text \<open>
  C8: whenever the command line selects the subcommand \<open>pinecone\<close>, the parsed
  arguments hold a string under \<open>index\<close>, never \<open>None\<close>; it is \<open>all\<close> when neither \<open>-i\<close>
  nor \<open>--index\<close> occurs on the command line.  With such arguments no run of
  \<open>export_pinecone\<close> shows the prompt for the index name, and when the option was
  omitted every successful run exports every index: its calls on the adapter are the
  constructor, one enumeration, and one \<open>get_data\<close> per index name returned, in the
  order returned.
\<close>

theorem pinecone_index_defaults_to_all:
  assumes "parse_args ws = Inr args"
    and "dict_get args ''vector_database'' = Some (PStr ''pinecone'')"
  shows "(\<exists>s. dict_get args ''index'' = Some (PStr s) \<and>
            (''-i'' \<notin> set ws \<and> ''--index'' \<notin> set ws \<longrightarrow> s = ''all'')) \<and>
         (\<forall>w r w'. export_pinecone args w = (r, w') \<longrightarrow>
            Prompt index_prompt \<notin> set (emitted w w')) \<and>
         (''-i'' \<notin> set ws \<and> ''--index'' \<notin> set ws \<longrightarrow>
            (\<forall>w a' w'. export_pinecone args w = (Inr a', w') \<longrightarrow>
               (\<exists>names. collection_names (service w) = Some names \<and>
                  calls (emitted w w') =
                    Construct Pinecone a' # ListNames Pinecone #
                    map (\<lambda>n. GetData Pinecone [PStr n]) names)))"
proof (intro conjI)
  from parse_args_pinecone_index [OF assms]
  show idx: "\<exists>s. dict_get args ''index'' = Some (PStr s) \<and>
            (''-i'' \<notin> set ws \<and> ''--index'' \<notin> set ws \<longrightarrow> s = ''all'')" .
  then have set: "\<not> unset args ''index''"
    by (auto simp: unset_def)
  then show "\<forall>w r w'. export_pinecone args w = (r, w') \<longrightarrow>
            Prompt index_prompt \<notin> set (emitted w w')"
    by (blast dest: export_pinecone_no_index_prompt)
  show "''-i'' \<notin> set ws \<and> ''--index'' \<notin> set ws \<longrightarrow>
            (\<forall>w a' w'. export_pinecone args w = (Inr a', w') \<longrightarrow>
               (\<exists>names. collection_names (service w) = Some names \<and>
                  calls (emitted w w') =
                    Construct Pinecone a' # ListNames Pinecone #
                    map (\<lambda>n. GetData Pinecone [PStr n]) names))"
  proof (intro impI allI)
    fix w a' w'
    assume omitted: "''-i'' \<notin> set ws \<and> ''--index'' \<notin> set ws"
      and run: "export_pinecone args w = (Inr a', w')"
    from idx omitted have "dict_get args ''index'' = Some (PStr ''all'')"
      by auto
    with export_pinecone_keeps_index [OF run set]
    have "dict_get a' ''index'' = Some (PStr ''all'')" by simp
    with export_pinecone_calls [OF run]
    show "\<exists>names. collection_names (service w) = Some names \<and>
            calls (emitted w w') =
              Construct Pinecone a' # ListNames Pinecone #
              map (\<lambda>n. GetData Pinecone [PStr n]) names"
      by auto
  qed
qed

theorem pinecone_index_defaults_to_all_witness:
  "parse_args [''pinecone'', ''-e'', ''us-west1-gcp'']
     = Inr [(''model_name'', PStr ''text-embedding-ada-002''), (''vector_database'', PStr ''pinecone''),
      (''environment'', PStr ''us-west1-gcp''), (''index'', PStr ''all'')]
   \<and> dict_get [(''model_name'', PStr ''text-embedding-ada-002''), (''vector_database'', PStr ''pinecone''),
      (''environment'', PStr ''us-west1-gcp''), (''index'', PStr ''all'')]
       ''vector_database'' = Some (PStr ''pinecone'')
   \<and> dict_get [(''model_name'', PStr ''text-embedding-ada-002''), (''vector_database'', PStr ''pinecone''),
      (''environment'', PStr ''us-west1-gcp''), (''index'', PStr ''all'')]
       ''index'' = Some (PStr ''all'')
   \<and> export_pinecone [(''model_name'', PStr ''text-embedding-ada-002''), (''vector_database'', PStr ''pinecone''),
      (''environment'', PStr ''us-west1-gcp''), (''index'', PStr ''all'')]
      \<lparr>argv = [''pinecone'', ''-e'', ''us-west1-gcp''],
       environ = [(''PINECONE_API_KEY'', ''k'')], stdin = [], tty = [],
       service = \<lparr>construct_raises = False, collection_names = Some [''a'', ''b''],
                  get_data_raises = []\<rparr>,
       trace = []\<rparr>
     = (Inr [(''model_name'', PStr ''text-embedding-ada-002''), (''vector_database'', PStr ''pinecone''),
      (''environment'', PStr ''us-west1-gcp''), (''index'', PStr ''all''),
      (''pinecone_api_key'', PStr ''k'')],
      \<lparr>argv = [''pinecone'', ''-e'', ''us-west1-gcp''],
       environ = [(''PINECONE_API_KEY'', ''k'')], stdin = [], tty = [],
       service = \<lparr>construct_raises = False, collection_names = Some [''a'', ''b''],
                  get_data_raises = []\<rparr>,
       trace = [PrintArgs [(''model_name'', PStr ''text-embedding-ada-002''), (''vector_database'', PStr ''pinecone''),
                   (''environment'', PStr ''us-west1-gcp''), (''index'', PStr ''all''),
                   (''pinecone_api_key'', PStr ''k'')],
                Construct Pinecone [(''model_name'', PStr ''text-embedding-ada-002''), (''vector_database'', PStr ''pinecone''),
                   (''environment'', PStr ''us-west1-gcp''), (''index'', PStr ''all''),
                   (''pinecone_api_key'', PStr ''k'')],
                ListNames Pinecone, GetData Pinecone [PStr ''a''],
                GetData Pinecone [PStr ''b'']]\<rparr>)"
  (is "parse_args ?ws = Inr ?a \<and> _ \<and> _ \<and> export_pinecone _ ?w = (Inr ?b, ?v)")
  using pinecone_index_defaults_to_all [of ?ws ?a]
  by (simp add: parse_defs run_defs)



text \<open>
  C2: the claim is that \<open>get_data\<close> receives \<open>True\<close> exactly when the user asked for
  cross-references, by the flag \<open>-i\<close> or at the prompt.  With the command line of the
  docstring, \<open>weaviate -u http://localhost:8080 -c my_class -i Y\<close>, the option's
  \<open>type=bool\<close> turns \<open>Y\<close> into \<open>True\<close>, the comparison with the string \<open>Y\<close> of line 66
  fails, and \<open>get_data\<close> receives \<open>False\<close>.
\<close>

theorem main_weaviate_flag_Y_gives_False:
  "main
    \<lparr>argv = [''weaviate'', ''-u'', ''http://localhost:8080'', ''-c'', ''my_class'', ''-i'', ''Y''], environ = [],
      stdin = [], tty = [],
      service = \<lparr>construct_raises = False, collection_names = Some [''a'', ''b''],
                 get_data_raises = []\<rparr>,
      trace = []\<rparr>
   = (Inr (),
     \<lparr>argv = [''weaviate'', ''-u'', ''http://localhost:8080'', ''-c'', ''my_class'', ''-i'', ''Y''], environ = [],
       stdin = [], tty = [],
       service = \<lparr>construct_raises = False, collection_names = Some [''a'', ''b''],
                  get_data_raises = []\<rparr>,
       trace = [Construct Weaviate [(''model_name'', PStr ''text-embedding-ada-002''), (''vector_database'', PStr ''weaviate''), (''url'', PStr ''http://localhost:8080''), (''class_name'', PStr ''my_class''), (''include_crossrefs'', PBool False)],
                GetData Weaviate [PStr ''my_class'', PBool False],
                PrintStr ''Export completed.'']\<rparr>)"
  by (simp add: main.simps parse_defs run_defs)

text \<open>
  C3: the claim is that after an unknown backend the program asks for a name, and that
  a valid name then leads to a normal export.  Run without a subcommand and given the
  answer \<open>pinecone\<close>, \<open>main\<close> prints the message and the prompt, appends
  \<open>--vector_database pinecone\<close> to the command line and calls itself; no parser
  declares the option \<open>--vector_database\<close>, so argparse reports a usage error and
  exits with status 2.  No adapter is constructed and nothing is exported.
\<close>

theorem main_retry_with_valid_name_exits:
  "main
    \<lparr>argv = [], environ = [],
      stdin = [''pinecone''], tty = [],
      service = \<lparr>construct_raises = False, collection_names = Some [''a'', ''b''],
                 get_data_raises = []\<rparr>,
      trace = []\<rparr>
   = (Inl (SystemExit 2),
     \<lparr>argv = [''--vector_database'', ''pinecone''], environ = [],
       stdin = [], tty = [],
       service = \<lparr>construct_raises = False, collection_names = Some [''a'', ''b''],
                  get_data_raises = []\<rparr>,
       trace = [PrintStr ''Invalid vector database'',
                Prompt ''Enter the name of vector database to export: '',
                ArgparseUsageError]\<rparr>)"
  by (simp add: main.simps parse_defs run_defs)

end
